theory Spec2Isabelle
  imports Complex_Main "HOL-Library.Word"
begin

section \<open>The audio kaleidoscope: one animation frame\<close>

text \<open>
  The development embeds \<^verbatim>\<open>draw\<close>, the animation callback of
  \<^verbatim>\<open>src/components/KaleidoscopeVisualizer.tsx\<close>, together with the two places that
  assign the analyser and its byte buffer and with the restart of the animation loop at
  every change of a parameter.

  Numbers. A JavaScript \<^verbatim>\<open>number\<close> is modelled as a \<open>real\<close>: finite, and with
  exact arithmetic, so rounding of IEEE doubles is not part of the model. The only
  places of \<^verbatim>\<open>draw\<close> where finite inputs give a non-finite value are the mean of an empty
  byte buffer (\<^verbatim>\<open>0 / 0\<close>) and the read of an empty buffer (\<^verbatim>\<open>undefined / 255\<close>); both
  are written out as the result \<open>Inl NonFinite\<close>. A \<^verbatim>\<open>Uint8Array\<close> is a list of
  8-bit words, the canvas size a pair of naturals (the DOM type is \<^verbatim>\<open>unsigned long\<close>).
\<close>

subsection \<open>Data\<close>

type_synonym byte = "8 word"

record VisualParams =
  segments :: real
  rotationSpeed :: real
  sensitivity :: real
  bloom :: real
  smoothing :: real
  fftSize :: nat
  baseHue :: real
  mirror :: bool

definition DEFAULT_PARAMS :: VisualParams where
  "DEFAULT_PARAMS =
     \<lparr>segments = 12, rotationSpeed = 0.35, sensitivity = 1.2, bloom = 0.3,
      smoothing = 0.85, fftSize = 1024, baseHue = 220, mirror = True\<rparr>"

text \<open>The fields of an \<^verbatim>\<open>AnalyserNode\<close> that the component writes.\<close>

record AnalyserNode =
  smoothingTimeConstant :: real
  nodeFftSize :: nat

text \<open>
  The mutable cells \<^verbatim>\<open>draw\<close> reads and writes: four React refs, and \<^verbatim>\<open>lastTime\<close>, the
  variable of the enclosing effect.
\<close>

record refs =
  analyserRef :: "AnalyserNode option"
  freqDataRef :: "byte list option"
  rotationRef :: real
  beatEnergyAvgRef :: real
  lastTime :: real

text \<open>
  What the environment supplies to one call of \<^verbatim>\<open>draw\<close>: the timestamp \<^verbatim>\<open>now\<close>, the
  byte frequency data the bound analyser reports at that moment (unused when no analyser
  is bound), and the size of the canvas.
\<close>

record tick =
  now :: real
  spectrum :: "byte list"
  width :: nat
  height :: nat

datatype error = IndexSizeError | NonFinite

subsection \<open>The pieces of \<^verbatim>\<open>draw\<close>\<close>

text \<open>\<^verbatim>\<open>const dt = Math.min(0.05, (now - lastTime) / 1000)\<close>\<close>

definition dt_of :: "real \<Rightarrow> real \<Rightarrow> real" where
  "dt_of now' lastTime' = min 0.05 ((now' - lastTime') / 1000)"

text \<open>
  \<^verbatim>\<open>analyser.getByteFrequencyData(freqData)\<close> copies the node's data into the array:
  surplus data is dropped, surplus array elements keep their contents.
\<close>

definition getByteFrequencyData :: "byte list \<Rightarrow> byte list \<Rightarrow> byte list" where
  "getByteFrequencyData data array = take (length array) data @ drop (length data) array"

text \<open>
  \<^verbatim>\<open>for (let i = 0; i < freqData.length; i++) sum += freqData[i];\<close>
  \<^verbatim>\<open>energy = sum / freqData.length / 255\<close>. An empty array gives \<^verbatim>\<open>0 / 0\<close>.
\<close>

definition energy_of :: "byte list \<Rightarrow> real option" where
  "energy_of freqData =
     (let sum = foldl (\<lambda>sum b. sum + real (unat b)) 0 freqData
      in if freqData = [] then None
         else Some (sum / real (length freqData) / 255))"

text \<open>
  The rolling average and the beat boost. \<^verbatim>\<open>beatEnergyAvgRef.current || 0\<close> replaces a
  falsy number by 0; among the reals the only falsy number is 0 itself.
\<close>

definition beat_update :: "real \<Rightarrow> real \<Rightarrow> real \<times> real" where
  "beat_update beatEnergyAvg energy =
     (let prev = (if beatEnergyAvg = 0 then 0 else beatEnergyAvg);
          alpha = 0.9;
          avg = prev * alpha + energy * (1 - alpha);
          diff = max 0 (energy - avg);
          beatBoost = diff * 2.2
      in (avg, beatBoost))"

text \<open>\<^verbatim>\<open>Math.max(2, Math.min(48, Math.floor(params.segments)))\<close>\<close>

definition segCount_of :: "VisualParams \<Rightarrow> int" where
  "segCount_of params = max 2 (min 48 \<lfloor>segments params\<rfloor>)"

definition bars :: nat where
  "bars = 96"

text \<open>\<^verbatim>\<open>const t = j / (bars - 1)\<close>\<close>

definition bar_t :: "nat \<Rightarrow> real" where
  "bar_t j = real j / (real bars - 1)"

text \<open>\<^verbatim>\<open>Math.min(freqData.length - 1, Math.floor(t * freqData.length))\<close>\<close>

definition bin_index :: "nat \<Rightarrow> real \<Rightarrow> int" where
  "bin_index len t = min (int len - 1) \<lfloor>t * real len\<rfloor>"

text \<open>A typed-array read: \<^verbatim>\<open>undefined\<close> outside the array.\<close>

definition typed_get :: "byte list \<Rightarrow> int \<Rightarrow> byte option" where
  "typed_get a idx = (if 0 \<le> idx \<and> idx < int (length a) then Some (a ! nat idx) else None)"

text \<open>
  \<^verbatim>\<open>let bin = 0; if (freqData) { ...; bin = freqData[idx] / 255; }\<close>
  The result \<open>None\<close> stands for \<^verbatim>\<open>undefined / 255\<close>.
\<close>

definition bin_of :: "byte list option \<Rightarrow> real \<Rightarrow> real option" where
  "bin_of freqData t =
     (case freqData of
        None \<Rightarrow> Some 0
      | Some a \<Rightarrow>
          (case typed_get a (bin_index (length a) t) of
             None \<Rightarrow> None
           | Some b \<Rightarrow> Some (real (unat b) / 255)))"

subsection \<open>The audio block of \<^verbatim>\<open>draw\<close>\<close>

text \<open>
  \<^verbatim>\<open>if (analyser && freqData) { ... }\<close>: fills the buffer, computes the energy, updates
  the rolling average and computes the beat boost. It returns the updated cells with the
  locals \<^verbatim>\<open>energy\<close> and \<^verbatim>\<open>beatBoost\<close>; both stay 0 when either ref is null.
\<close>

definition audio_block :: "tick \<Rightarrow> refs \<Rightarrow> error + (refs \<times> real \<times> real)" where
  "audio_block tk s =
     (case analyserRef s of
        None \<Rightarrow> Inr (s, 0, 0)
      | Some analyser \<Rightarrow>
          (case freqDataRef s of
             None \<Rightarrow> Inr (s, 0, 0)
           | Some freqData \<Rightarrow>
               (let filled = getByteFrequencyData (spectrum tk) freqData
                in case energy_of filled of
                     None \<Rightarrow> Inl NonFinite
                   | Some energy \<Rightarrow>
                       (let (avg, beatBoost) = beat_update (beatEnergyAvgRef s) energy
                        in Inr (s\<lparr>freqDataRef := Some filled, beatEnergyAvgRef := avg\<rparr>,
                                energy, beatBoost)))))"

subsection \<open>Rendering\<close>

text \<open>
  What one call of \<^verbatim>\<open>draw\<close> paints, as a value: per wedge the transform, the clip
  radius, the 96 bars and the nucleus; per bar the angle, the magnitude, both radii and
  the two line widths. \<open>frameEnergy\<close> and \<open>frameBeatBoost\<close> record the locals
  \<^verbatim>\<open>energy\<close> and \<^verbatim>\<open>beatBoost\<close> the frame was drawn with.
\<close>

record bar =
  localAngle :: real
  mag :: real
  r0 :: real
  r1 :: real
  glowWidth :: real
  coreWidth :: real
  coreEnd :: real

record wedge =
  wedgeAngle :: real
  mirrored :: bool
  clipRadius :: real
  wedgeBars :: "bar list"
  nucleusR :: real

record frame =
  overlay :: "nat \<times> nat"
  centre :: "real \<times> real"
  hue :: real
  lightness :: real
  glowAlpha :: real
  frameEnergy :: real
  frameBeatBoost :: real
  wedges :: "wedge list"

text \<open>The locals of \<^verbatim>\<open>draw\<close> that the two loops read.\<close>

record scene =
  innerRadius :: real
  maxRadius :: real
  segAngle :: real
  energy :: real
  beatBoost :: real
  rotation :: real

text \<open>The remainder \<^verbatim>\<open>a % b\<close> of JavaScript numbers: the quotient is truncated.\<close>

definition js_rem :: "real \<Rightarrow> real \<Rightarrow> real" where
  "js_rem a b = a - b * real_of_int (if 0 \<le> a / b then \<lfloor>a / b\<rfloor> else \<lceil>a / b\<rceil>)"

text \<open>
  Running a fallible step over a list, stopping at the first error, as an exception
  leaves a \<^verbatim>\<open>for\<close> loop.
\<close>

fun try_map :: "('a \<Rightarrow> error + 'b) \<Rightarrow> 'a list \<Rightarrow> error + 'b list" where
  "try_map f [] = Inr []"
| "try_map f (x # xs) =
     (case f x of
        Inl e \<Rightarrow> Inl e
      | Inr y \<Rightarrow> (case try_map f xs of Inl e \<Rightarrow> Inl e | Inr ys \<Rightarrow> Inr (y # ys)))"

text \<open>
  The body of the inner loop once \<^verbatim>\<open>bin\<close> is known. \<^verbatim>\<open>Math.pow(bin, 1.3)\<close> is
  \<open>bin powr 1.3\<close>, \<^verbatim>\<open>bin\<close> being non-negative.
\<close>

definition make_bar :: "VisualParams \<Rightarrow> scene \<Rightarrow> real \<Rightarrow> real \<Rightarrow> bar" where
  "make_bar params sc t bin =
     (let mag' = bin powr 1.3 * sensitivity params;
          r0' = innerRadius sc * (0.8 + energy sc * 0.4);
          r1' = r0' + (maxRadius sc - r0') * min 1.0 (mag' * (0.9 + beatBoost sc))
      in \<lparr>localAngle = (t - 0.5) * segAngle sc,
          mag = mag', r0 = r0', r1 = r1',
          glowWidth = max 1 ((maxRadius sc - r0') * 0.004 + mag' * 6),
          coreWidth = 1.2 + mag' * 3.5,
          coreEnd = r1' * (0.98 + energy sc * 0.02)\<rparr>)"

definition draw_bar :: "VisualParams \<Rightarrow> scene \<Rightarrow> byte list option \<Rightarrow> nat \<Rightarrow> error + bar" where
  "draw_bar params sc freqData j =
     (let t = bar_t j
      in case bin_of freqData t of
           None \<Rightarrow> Inl NonFinite
         | Some bin \<Rightarrow> Inr (make_bar params sc t bin))"

text \<open>
  One wedge. \<^verbatim>\<open>ctx.arc\<close> and \<^verbatim>\<open>ctx.createRadialGradient\<close> throw an
  \<^verbatim>\<open>IndexSizeError\<close> on a negative radius.
\<close>

definition draw_wedge :: "VisualParams \<Rightarrow> scene \<Rightarrow> byte list option \<Rightarrow> nat \<Rightarrow> error + wedge" where
  "draw_wedge params sc freqData i =
     (if maxRadius sc < 0 then Inl IndexSizeError
      else case try_map (draw_bar params sc freqData) [0..<bars] of
             Inl e \<Rightarrow> Inl e
           | Inr bs \<Rightarrow>
               (let nucleusR' = innerRadius sc * (0.9 + energy sc * 0.6 + beatBoost sc * 0.5)
                in if nucleusR' * 0.2 < 0 \<or> nucleusR' < 0 then Inl IndexSizeError
                   else Inr \<lparr>wedgeAngle = real i * segAngle sc + rotation sc,
                             mirrored = (mirror params \<and> i mod 2 = 1),
                             clipRadius = maxRadius sc,
                             wedgeBars = bs,
                             nucleusR = nucleusR'\<rparr>))"

subsection \<open>\<^verbatim>\<open>draw\<close>\<close>

text \<open>
  One call of the animation callback, for the parameters its closure holds. An exception
  leaves the callback, so the result is the error and nothing else; the model also stops
  at the first non-finite number.
\<close>

definition draw :: "VisualParams \<Rightarrow> tick \<Rightarrow> refs \<Rightarrow> error + (refs \<times> frame)" where
  "draw params tk s =
     (let cx = real (width tk) * 0.5;
          cy = real (height tk) * 0.5;
          minDim = min (real (width tk)) (real (height tk));
          innerRadius' = minDim * 0.06;
          maxRadius' = minDim * 0.48;
          dt = dt_of (now tk) (lastTime s);
          s1 = s\<lparr>lastTime := now tk\<rparr>
      in case audio_block tk s1 of
           Inl e \<Rightarrow> Inl e
         | Inr (s2, energy', beatBoost') \<Rightarrow>
             (let s3 = s2\<lparr>rotationRef :=
                           rotationRef s2 + (rotationSpeed params + beatBoost' * 0.8) * dt\<rparr>;
                  segCount = segCount_of params;
                  sc = \<lparr>innerRadius = innerRadius', maxRadius = maxRadius',
                        segAngle = (pi * 2) / real_of_int segCount,
                        energy = energy', beatBoost = beatBoost',
                        rotation = rotationRef s3\<rparr>
              in case try_map (draw_wedge params sc (freqDataRef s3)) [0..<nat segCount] of
                   Inl e \<Rightarrow> Inl e
                 | Inr ws \<Rightarrow>
                     Inr (s3,
                          \<lparr>overlay = (width tk, height tk),
                           centre = (cx, cy),
                           hue = js_rem (baseHue params
                                   + 360 * (energy' * 0.5 + beatBoost' * 0.6)) 360,
                           lightness = min 85 (65 + energy' * 25),
                           glowAlpha = min 0.6 (0.25 + bloom params),
                           frameEnergy = energy',
                           frameBeatBoost = beatBoost',
                           wedges = ws\<rparr>)))"

text \<open>
  Consecutive calls of \<^verbatim>\<open>draw\<close> (each one requests the next), with the frames they
  paint. An exception ends the loop.
\<close>

fun run :: "VisualParams \<Rightarrow> refs \<Rightarrow> tick list \<Rightarrow> error + (refs \<times> frame list)" where
  "run params s [] = Inr (s, [])"
| "run params s (tk # tks) =
     (case draw params tk s of
        Inl e \<Rightarrow> Inl e
      | Inr (s', f) \<Rightarrow>
          (case run params s' tks of
             Inl e \<Rightarrow> Inl e
           | Inr (s'', fs) \<Rightarrow> Inr (s'', f # fs)))"

subsection \<open>Binding an analyser\<close>

text \<open>
  The refs as the component creates them; \<open>t0\<close> is the \<^verbatim>\<open>performance.now()\<close> the
  effect stores in \<^verbatim>\<open>lastTime\<close>.
\<close>

definition initial_refs :: "real \<Rightarrow> refs" where
  "initial_refs t0 =
     \<lparr>analyserRef = None, freqDataRef = None, rotationRef = 0, beatEnergyAvgRef = 0,
      lastTime = t0\<rparr>"

text \<open>
  An analyser accepts a power of two from 32 to 32768 as \<^verbatim>\<open>fftSize\<close> and a
  \<^verbatim>\<open>smoothingTimeConstant\<close> from 0 to 1, and throws an \<^verbatim>\<open>IndexSizeError\<close> otherwise;
  its \<^verbatim>\<open>frequencyBinCount\<close> is half its \<^verbatim>\<open>fftSize\<close>.
\<close>

definition valid_fftSize :: "nat \<Rightarrow> bool" where
  "valid_fftSize n = (n \<in> set (map (\<lambda>k. 2 ^ k) [5..<16]))"

definition connectAnalyser :: "VisualParams \<Rightarrow> refs \<Rightarrow> error + refs" where
  "connectAnalyser params s =
     (if smoothing params < 0 \<or> 1 < smoothing params then Inl IndexSizeError
      else if \<not> valid_fftSize (fftSize params) then Inl IndexSizeError
      else Inr (s\<lparr>analyserRef :=
                    Some \<lparr>smoothingTimeConstant = smoothing params,
                          nodeFftSize = fftSize params\<rparr>,
                  freqDataRef := Some (replicate (fftSize params div 2) 0)\<rparr>))"

text \<open>
  The effect on \<^verbatim>\<open>[params.smoothing, params.fftSize]\<close>; the assignment of
  \<^verbatim>\<open>fftSize\<close> is inside \<^verbatim>\<open>try { ... } catch {}\<close>.
\<close>

definition analyser_effect :: "VisualParams \<Rightarrow> refs \<Rightarrow> error + refs" where
  "analyser_effect params s =
     (case analyserRef s of
        None \<Rightarrow> Inr s
      | Some analyser \<Rightarrow>
          if smoothing params < 0 \<or> 1 < smoothing params then Inl IndexSizeError
          else
            (let analyser' = analyser\<lparr>smoothingTimeConstant := smoothing params\<rparr>
             in if nodeFftSize analyser' \<noteq> fftSize params \<and> valid_fftSize (fftSize params)
                then Inr (s\<lparr>analyserRef := Some (analyser'\<lparr>nodeFftSize := fftSize params\<rparr>),
                            freqDataRef := Some (replicate (fftSize params div 2) 0)\<rparr>)
                else Inr (s\<lparr>analyserRef := Some analyser'\<rparr>)))"

text \<open>
  The two buffer refs are written together: a buffer exists only with an analyser, and
  it is never empty.
\<close>

definition refs_ok :: "refs \<Rightarrow> bool" where
  "refs_ok s =
     ((analyserRef s = None \<longrightarrow> freqDataRef s = None) \<and> freqDataRef s \<noteq> Some [])"

subsection \<open>The life of the component\<close>

text \<open>
  What happens to the refs and to the closure of \<^verbatim>\<open>draw\<close> between frames.

  \<^verbatim>\<open>setParams\<close> stores a new parameter object, so both effects that depend on the
  parameters run again, in the order of their declaration: the effect on
  \<^verbatim>\<open>[params.smoothing, params.fftSize]\<close> when one of the two changed, and then the
  animation effect on \<^verbatim>\<open>[params]\<close>, which cancels the pending callback, takes a fresh
  \<^verbatim>\<open>lastTime = performance.now()\<close> (the \<open>t\<close> of the event) and requests \<^verbatim>\<open>draw\<close> with
  the new parameters. An exception in an effect ends the component.

  \<^verbatim>\<open>playFromElement\<close> and \<^verbatim>\<open>startMic\<close> call \<^verbatim>\<open>connectAnalyser\<close> with the current
  parameters; an exception there rejects their promise and leaves the refs as they were.
\<close>

datatype event = Frame tick | SetParams VisualParams real | Connect

definition set_params ::
    "VisualParams \<Rightarrow> real \<Rightarrow> VisualParams \<times> refs \<Rightarrow> error + (VisualParams \<times> refs)" where
  "set_params params' t st =
     (case st of (params, s) \<Rightarrow>
        (case (if smoothing params' \<noteq> smoothing params \<or> fftSize params' \<noteq> fftSize params
               then analyser_effect params' s else Inr s) of
           Inl e \<Rightarrow> Inl e
         | Inr s1 \<Rightarrow> Inr (params', s1\<lparr>lastTime := t\<rparr>)))"

fun session :: "VisualParams \<times> refs \<Rightarrow> event list \<Rightarrow> error + (VisualParams \<times> refs)" where
  "session st [] = Inr st"
| "session st (Frame tk # es) =
     (case draw (fst st) tk (snd st) of
        Inl e \<Rightarrow> Inl e
      | Inr (s', f) \<Rightarrow> session (fst st, s') es)"
| "session st (SetParams params' t # es) =
     (case set_params params' t st of
        Inl e \<Rightarrow> Inl e
      | Inr st' \<Rightarrow> session st' es)"
| "session st (Connect # es) =
     (case connectAnalyser (fst st) (snd st) of
        Inl e \<Rightarrow> session st es
      | Inr s' \<Rightarrow> session (fst st, s') es)"

subsection \<open>Notions of the specification\<close>

text \<open>
  A skipped frame, in the words of the specification: the call ends without an error and
  paints no wedge, so no bar and no nucleus.
\<close>

definition frame_skipped :: "error + (refs \<times> frame) \<Rightarrow> bool" where
  "frame_skipped r = (case r of Inl e \<Rightarrow> False | Inr (s', f) \<Rightarrow> wedges f = [])"

text \<open>
  No callback is early: every frame's timestamp is at least the \<^verbatim>\<open>lastTime\<close> it meets,
  which is the timestamp of the frame before it or the \<^verbatim>\<open>performance.now()\<close> of a later
  restart of the loop.
\<close>

fun timely :: "real \<Rightarrow> event list \<Rightarrow> bool" where
  "timely l [] = True"
| "timely l (Frame tk # es) = (l \<le> now tk \<and> timely (now tk) es)"
| "timely l (SetParams params' t # es) = timely t es"
| "timely l (Connect # es) = timely l es"

section \<open>Auxiliary facts\<close>

subsection \<open>Fallible loops\<close>

lemma try_map_Inr_iff:
  "try_map f xs = Inr ys \<longleftrightarrow> list_all2 (\<lambda>x y. f x = Inr y) xs ys"
proof (induction xs arbitrary: ys)
  case Nil
  show ?case by auto
next
  case (Cons x xs)
  show ?case
    using Cons.IH
    by (cases "f x"; cases "try_map f xs") (auto simp: list_all2_Cons1)
qed

lemma try_map_total:
  assumes "\<And>x. x \<in> set xs \<Longrightarrow> \<exists>y. f x = Inr y"
  shows "\<exists>ys. try_map f xs = Inr ys"
  using assms
proof (induction xs)
  case Nil
  show ?case by simp
next
  case (Cons x xs)
  then obtain y ys where "f x = Inr y" "try_map f xs = Inr ys"
    by (metis list.set_intros(1) list.set_intros(2))
  then show ?case by simp
qed

lemma try_map_length: "try_map f xs = Inr ys \<Longrightarrow> length ys = length xs"
  by (simp add: try_map_Inr_iff list_all2_lengthD)

lemma try_map_elem:
  assumes "try_map f xs = Inr ys" "y \<in> set ys"
  shows "\<exists>x \<in> set xs. f x = Inr y"
proof -
  from assms(1) have "list_all2 (\<lambda>x y. f x = Inr y) xs ys"
    by (simp add: try_map_Inr_iff)
  then show ?thesis using assms(2)
    by (induction rule: list_all2_induct) auto
qed

subsection \<open>Bytes and energy\<close>

lemma length_getByteFrequencyData [simp]:
  "length (getByteFrequencyData d a) = length a"
  by (auto simp: getByteFrequencyData_def)

lemma getByteFrequencyData_same_length:
  "length d = length a \<Longrightarrow> getByteFrequencyData d a = d"
  by (simp add: getByteFrequencyData_def)

lemma byte_nonneg: "0 \<le> real (unat (b :: byte))"
  by (rule of_nat_0_le_iff)

lemma byte_le_255: "real (unat (b :: byte)) \<le> 255"
proof -
  have "unat b < 2 ^ LENGTH(8)" by (rule unsigned_less)
  then have "unat b \<le> 255" by simp
  then have "real (unat b) \<le> real 255" by (rule of_nat_mono)
  then show ?thesis by simp
qed

lemma foldl_sum_acc:
  "foldl (\<lambda>sum b. sum + real (unat (b::byte))) acc xs = acc + foldl (\<lambda>sum b. sum + real (unat b)) 0 xs"
proof (induction xs arbitrary: acc)
  case Nil
  show ?case by simp
next
  case (Cons x xs)
  show ?case
    using Cons.IH [of "acc + real (unat x)"] Cons.IH [of "real (unat x)"] by simp
qed

lemma foldl_sum_bounds:
  "0 \<le> foldl (\<lambda>sum b. sum + real (unat (b::byte))) 0 xs
   \<and> foldl (\<lambda>sum b. sum + real (unat (b::byte))) 0 xs \<le> 255 * real (length xs)"
proof (induction xs)
  case Nil
  show ?case by simp
next
  case (Cons x xs)
  have "foldl (\<lambda>sum b. sum + real (unat b)) 0 (x # xs)
        = real (unat x) + foldl (\<lambda>sum b. sum + real (unat b)) 0 xs"
    using foldl_sum_acc [of "real (unat x)" xs] by simp
  with Cons.IH byte_le_255 [of x] byte_nonneg [of x] show ?case by (simp add: algebra_simps)
qed

lemma energy_of_range:
  assumes "a \<noteq> []"
  shows "\<exists>e. energy_of a = Some e \<and> 0 \<le> e \<and> e \<le> 1"
proof -
  let ?s = "foldl (\<lambda>sum b. sum + real (unat b)) 0 a"
  have len: "0 < real (length a)" using assms by simp
  have "0 \<le> ?s" "?s \<le> 255 * real (length a)" using foldl_sum_bounds [of a] by auto
  then have "0 \<le> ?s / real (length a) / 255" "?s / real (length a) / 255 \<le> 1"
    using len by (simp_all add: field_simps)
  with assms show ?thesis by (simp add: energy_of_def)
qed

lemma energy_of_zero:
  assumes "a \<noteq> []" "\<forall>b \<in> set a. b = 0"
  shows "energy_of a = Some 0"
proof -
  have "foldl (\<lambda>sum b. sum + real (unat (b::byte))) 0 xs = 0" if "\<forall>b \<in> set xs. b = 0" for xs
    using that by (induction xs) auto
  with assms show ?thesis by (simp add: energy_of_def)
qed

lemma energy_of_Some_nonempty: "energy_of a = Some e \<Longrightarrow> a \<noteq> []"
  by (auto simp: energy_of_def Let_def split: if_splits)

subsection \<open>Bars and bins\<close>

lemma bar_t_nonneg: "0 \<le> bar_t j"
  by (simp add: bar_t_def bars_def)

lemma bar_t_range: "j < bars \<Longrightarrow> 0 \<le> bar_t j \<and> bar_t j \<le> 1"
  by (simp add: bar_t_def bars_def)

lemma floor_mult_less:
  assumes "0 < len" "t < 1"
  shows "\<lfloor>t * real len\<rfloor> < int len"
proof -
  have "t * real len < real len" using assms by simp
  then show ?thesis by (simp add: floor_less_iff)
qed

lemma bin_index_range:
  assumes "0 < len" "0 \<le> t"
  shows "0 \<le> bin_index len t \<and> bin_index len t < int len"
proof -
  have "0 \<le> t * real len" using assms by simp
  then have "0 \<le> \<lfloor>t * real len\<rfloor>" by simp
  with assms show ?thesis by (simp add: bin_index_def)
qed

lemma bin_of_Some:
  assumes "freqData \<noteq> Some []" "0 \<le> t"
  shows "\<exists>bin. bin_of freqData t = Some bin \<and> 0 \<le> bin"
proof (cases freqData)
  case None
  then show ?thesis by (simp add: bin_of_def)
next
  case (Some a)
  with assms have "0 < length a" by simp
  from bin_index_range [OF this assms(2)] Some
  have "bin_of freqData t = Some (real (unat (a ! nat (bin_index (length a) t))) / 255)"
    by (simp add: bin_of_def typed_get_def)
  moreover have "0 \<le> real (unat (a ! nat (bin_index (length a) t))) / 255"
    using byte_nonneg by simp
  ultimately show ?thesis by blast
qed

lemma bin_of_zero:
  assumes "freqData = None \<or> (\<exists>a. freqData = Some a \<and> a \<noteq> [] \<and> (\<forall>b \<in> set a. b = 0))" "0 \<le> t"
  shows "bin_of freqData t = Some 0"
proof (cases freqData)
  case None
  then show ?thesis by (simp add: bin_of_def)
next
  case (Some a)
  with assms have a: "0 < length a" "\<forall>b \<in> set a. b = 0" by auto
  from bin_index_range [OF a(1) assms(2)]
  have "nat (bin_index (length a) t) < length a" by linarith
  then have "a ! nat (bin_index (length a) t) = 0" using a(2) by simp
  with bin_index_range [OF a(1) assms(2)] Some show ?thesis
    by (simp add: bin_of_def typed_get_def)
qed

subsection \<open>The rolling average\<close>

lemma beat_update_eq:
  "beat_update a e = (a * 0.9 + e * 0.1, max 0 (e - (a * 0.9 + e * 0.1)) * 2.2)"
  by (simp add: beat_update_def Let_def)

lemma beat_update_nonneg: "0 \<le> snd (beat_update a e)"
  by (simp add: beat_update_eq)

lemma beat_update_range:
  assumes "0 \<le> a" "a \<le> 1" "0 \<le> e" "e \<le> 1"
  shows "0 \<le> fst (beat_update a e) \<and> fst (beat_update a e) \<le> 1"
  using assms by (simp add: beat_update_eq)

lemma foldl_avg_range:
  assumes "0 \<le> a" "a \<le> 1" "\<forall>e \<in> set es. 0 \<le> e \<and> e \<le> 1"
  shows "0 \<le> foldl (\<lambda>a e. fst (beat_update a e)) a es
       \<and> foldl (\<lambda>a e. fst (beat_update a e)) a es \<le> 1"
  using assms
proof (induction es arbitrary: a)
  case Nil
  then show ?case by simp
next
  case (Cons e es)
  have "0 \<le> fst (beat_update a e) \<and> fst (beat_update a e) \<le> 1"
    using Cons.prems by (intro beat_update_range) auto
  with Cons.IH [of "fst (beat_update a e)"] Cons.prems(3) show ?case by simp
qed

subsection \<open>Bars and wedges\<close>

lemma make_bar_fields:
  "mag (make_bar params sc t bin) = bin powr 1.3 * sensitivity params"
  "r0 (make_bar params sc t bin) = innerRadius sc * (0.8 + energy sc * 0.4)"
  "r1 (make_bar params sc t bin) = r0 (make_bar params sc t bin)
      + (maxRadius sc - r0 (make_bar params sc t bin))
        * min 1 (mag (make_bar params sc t bin) * (0.9 + beatBoost sc))"
  "coreEnd (make_bar params sc t bin) = r1 (make_bar params sc t bin) * (0.98 + energy sc * 0.02)"
  by (simp_all add: make_bar_def Let_def)

lemma draw_bar_total:
  assumes "freqData \<noteq> Some []"
  shows "\<exists>b. draw_bar params sc freqData j = Inr b"
  using bin_of_Some [OF assms bar_t_nonneg, of j]
  by (auto simp: draw_bar_def Let_def)

lemma draw_bar_Inr:
  assumes "draw_bar params sc freqData j = Inr b"
  shows "\<exists>bin. bin_of freqData (bar_t j) = Some bin \<and> b = make_bar params sc (bar_t j) bin"
  using assms by (auto simp: draw_bar_def Let_def split: option.splits)

lemma draw_wedge_total:
  assumes "freqData \<noteq> Some []" "0 \<le> maxRadius sc" "0 \<le> innerRadius sc"
    "0 \<le> energy sc" "0 \<le> beatBoost sc"
  shows "\<exists>w. draw_wedge params sc freqData i = Inr w"
proof -
  obtain bs where bs: "try_map (draw_bar params sc freqData) [0..<bars] = Inr bs"
    using try_map_total [of "[0..<bars]" "draw_bar params sc freqData"] draw_bar_total [OF assms(1)]
    by blast
  have "0 \<le> 0.9 + energy sc * 0.6 + beatBoost sc * 0.5" using assms(4,5) by simp
  with assms(3) have "0 \<le> innerRadius sc * (0.9 + energy sc * 0.6 + beatBoost sc * 0.5)"
    by (rule mult_nonneg_nonneg)
  with bs assms(2) show ?thesis
    by (simp add: draw_wedge_def Let_def not_less)
qed

lemma draw_wedge_Inr:
  assumes "draw_wedge params sc freqData i = Inr w"
  shows "try_map (draw_bar params sc freqData) [0..<bars] = Inr (wedgeBars w)
    \<and> clipRadius w = maxRadius sc
    \<and> nucleusR w = innerRadius sc * (0.9 + energy sc * 0.6 + beatBoost sc * 0.5)
    \<and> wedgeAngle w = real i * segAngle sc + rotation sc
    \<and> mirrored w = (mirror params \<and> i mod 2 = 1)"
  using assms by (auto simp: draw_wedge_def Let_def split: if_splits sum.splits)

lemma wedge_bar:
  assumes "draw_wedge params sc freqData i = Inr w" "b \<in> set (wedgeBars w)"
  shows "\<exists>j bin. j < bars \<and> bin_of freqData (bar_t j) = Some bin
           \<and> b = make_bar params sc (bar_t j) bin"
proof -
  from draw_wedge_Inr [OF assms(1)]
  have "try_map (draw_bar params sc freqData) [0..<bars] = Inr (wedgeBars w)" by simp
  from try_map_elem [OF this assms(2)]
  obtain j where "j < bars" "draw_bar params sc freqData j = Inr b" by auto
  with draw_bar_Inr show ?thesis by blast
qed

lemma wedge_bars_length:
  assumes "draw_wedge params sc freqData i = Inr w"
  shows "length (wedgeBars w) = bars"
  using draw_wedge_Inr [OF assms] try_map_length by fastforce

subsection \<open>The audio block\<close>

lemma audio_block_unbound:
  assumes "analyserRef s = None \<or> freqDataRef s = None"
  shows "audio_block tk s = Inr (s, 0, 0)"
  using assms by (auto simp: audio_block_def split: option.splits)

lemma audio_block_bound:
  assumes "analyserRef s = Some an" "freqDataRef s = Some buf"
    "energy_of (getByteFrequencyData (spectrum tk) buf) = Some e"
  shows "audio_block tk s =
     Inr (s\<lparr>freqDataRef := Some (getByteFrequencyData (spectrum tk) buf),
            beatEnergyAvgRef := fst (beat_update (beatEnergyAvgRef s) e)\<rparr>,
          e, snd (beat_update (beatEnergyAvgRef s) e))"
  using assms by (simp add: audio_block_def Let_def split_beta)

lemma audio_block_total:
  assumes "refs_ok s"
  shows "\<exists>s2 e b. audio_block tk s = Inr (s2, e, b) \<and> 0 \<le> e \<and> e \<le> 1 \<and> 0 \<le> b
     \<and> refs_ok s2 \<and> rotationRef s2 = rotationRef s \<and> lastTime s2 = lastTime s
     \<and> analyserRef s2 = analyserRef s"
proof (cases "analyserRef s = None \<or> freqDataRef s = None")
  case True
  from audio_block_unbound [OF this] assms show ?thesis by simp
next
  case False
  then obtain an buf where b: "analyserRef s = Some an" "freqDataRef s = Some buf" by auto
  with assms have "buf \<noteq> []" by (auto simp: refs_ok_def)
  then have "getByteFrequencyData (spectrum tk) buf \<noteq> []"
    by (metis length_getByteFrequencyData length_0_conv)
  from energy_of_range [OF this] obtain e where
    e: "energy_of (getByteFrequencyData (spectrum tk) buf) = Some e" "0 \<le> e" "e \<le> 1" by blast
  from audio_block_bound [OF b e(1)] e(2,3) b(1)
    \<open>getByteFrequencyData (spectrum tk) buf \<noteq> []\<close> beat_update_nonneg [of "beatEnergyAvgRef s" e]
  show ?thesis by (simp add: refs_ok_def)
qed

subsection \<open>One frame\<close>

text \<open>
  What a successful call of \<^verbatim>\<open>draw\<close> returns, and that a call succeeds from every
  state in which the buffer is absent or non-empty.
\<close>

lemma draw_Inr:
  assumes "draw params tk s = Inr (s', f)"
  shows "\<exists>s2 sc. audio_block tk (s\<lparr>lastTime := now tk\<rparr>) = Inr (s2, frameEnergy f, frameBeatBoost f)
     \<and> s' = s2\<lparr>rotationRef := rotationRef s2
               + (rotationSpeed params + frameBeatBoost f * 0.8) * dt_of (now tk) (lastTime s)\<rparr>
     \<and> try_map (draw_wedge params sc (freqDataRef s')) [0..<nat (segCount_of params)] = Inr (wedges f)
     \<and> innerRadius sc = min (real (width tk)) (real (height tk)) * 0.06
     \<and> maxRadius sc = min (real (width tk)) (real (height tk)) * 0.48
     \<and> energy sc = frameEnergy f \<and> beatBoost sc = frameBeatBoost f
     \<and> overlay f = (width tk, height tk)"
  using assms
  by (auto simp: draw_def Let_def split: sum.splits prod.splits)

lemma draw_total:
  assumes "refs_ok s"
  shows "\<exists>s' f. draw params tk s = Inr (s', f)"
proof -
  from assms have "refs_ok (s\<lparr>lastTime := now tk\<rparr>)" by (simp add: refs_ok_def)
  from audio_block_total [OF this, of tk] obtain s2 e b where
    ab: "audio_block tk (s\<lparr>lastTime := now tk\<rparr>) = Inr (s2, e, b)" "0 \<le> e" "0 \<le> b" "refs_ok s2"
    by blast
  define s3 where "s3 = s2\<lparr>rotationRef := rotationRef s2
      + (rotationSpeed params + b * 0.8) * dt_of (now tk) (lastTime s)\<rparr>"
  define sc where "sc = \<lparr>innerRadius = min (real (width tk)) (real (height tk)) * 0.06,
      maxRadius = min (real (width tk)) (real (height tk)) * 0.48,
      segAngle = (pi * 2) / real_of_int (segCount_of params),
      energy = e, beatBoost = b, rotation = rotationRef s3\<rparr>"
  have fd: "freqDataRef s3 \<noteq> Some []" using ab(4) by (simp add: s3_def refs_ok_def)
  have "\<exists>w. draw_wedge params sc (freqDataRef s3) i = Inr w" for i
    by (rule draw_wedge_total [OF fd]) (simp_all add: sc_def ab)
  then obtain ws where
    "try_map (draw_wedge params sc (freqDataRef s3)) [0..<nat (segCount_of params)] = Inr ws"
    using try_map_total [of "[0..<nat (segCount_of params)]" "draw_wedge params sc (freqDataRef s3)"]
    by blast
  with ab(1) show ?thesis
    by (simp add: draw_def Let_def s3_def sc_def)
qed

lemma draw_empty_buffer:
  assumes "analyserRef s = Some an" "freqDataRef s = Some []"
  shows "draw params tk s = Inl NonFinite"
  using assms
  by (simp add: draw_def audio_block_def getByteFrequencyData_def energy_of_def)

lemma refs_okI_bound:
  assumes "freqDataRef s = Some buf" "buf \<noteq> []" "analyserRef s = Some an"
  shows "refs_ok s"
  using assms by (simp add: refs_ok_def)

lemma draw_bound:
  assumes "analyserRef s = Some an" "freqDataRef s = Some buf"
    "length (spectrum tk) = length buf" "energy_of (spectrum tk) = Some e"
  shows "\<exists>f. draw params tk s =
      Inr (s\<lparr>lastTime := now tk, freqDataRef := Some (spectrum tk),
             beatEnergyAvgRef := beatEnergyAvgRef s * 0.9 + e * 0.1,
             rotationRef := rotationRef s
                + (rotationSpeed params + frameBeatBoost f * 0.8) * dt_of (now tk) (lastTime s)\<rparr>, f)
      \<and> frameEnergy f = e
      \<and> frameBeatBoost f = max 0 (e - (beatEnergyAvgRef s * 0.9 + e * 0.1)) * 2.2"
proof -
  have ne: "buf \<noteq> []" using energy_of_Some_nonempty [OF assms(4)] assms(3) by auto
  have ok: "refs_ok s" using refs_okI_bound [OF assms(2) ne assms(1)] .
  from draw_total [OF ok] obtain s' f where d: "draw params tk s = Inr (s', f)" by blast
  let ?s1 = "s\<lparr>lastTime := now tk\<rparr>"
  have fill: "getByteFrequencyData (spectrum tk) buf = spectrum tk"
    using assms(3) by (rule getByteFrequencyData_same_length)
  have "audio_block tk ?s1 =
     Inr (?s1\<lparr>freqDataRef := Some (spectrum tk),
            beatEnergyAvgRef := fst (beat_update (beatEnergyAvgRef ?s1) e)\<rparr>,
          e, snd (beat_update (beatEnergyAvgRef ?s1) e))"
    using audio_block_bound [of ?s1 an buf tk e] assms fill by simp
  with draw_Inr [OF d] show ?thesis
    unfolding d by (auto simp: beat_update_eq)
qed

lemma draw_unbound:
  assumes "analyserRef s = None" "refs_ok s"
  shows "\<exists>f. draw params tk s =
       Inr (s\<lparr>lastTime := now tk,
              rotationRef := rotationRef s + rotationSpeed params * dt_of (now tk) (lastTime s)\<rparr>, f)
     \<and> frameEnergy f = 0 \<and> frameBeatBoost f = 0"
proof -
  from draw_total [OF assms(2)] obtain s' f where d: "draw params tk s = Inr (s', f)" by blast
  have "audio_block tk (s\<lparr>lastTime := now tk\<rparr>) = Inr (s\<lparr>lastTime := now tk\<rparr>, 0, 0)"
    by (rule audio_block_unbound) (simp add: assms(1))
  with draw_Inr [OF d] show ?thesis unfolding d by auto
qed

lemma draw_step:
  assumes "refs_ok s"
  shows "\<exists>s' f. draw params tk s = Inr (s', f) \<and> refs_ok s' \<and> lastTime s' = now tk
     \<and> analyserRef s' = analyserRef s
     \<and> map_option length (freqDataRef s') = map_option length (freqDataRef s)
     \<and> 0 \<le> frameEnergy f \<and> frameEnergy f \<le> 1 \<and> 0 \<le> frameBeatBoost f
     \<and> rotationRef s' = rotationRef s
          + (rotationSpeed params + frameBeatBoost f * 0.8) * dt_of (now tk) (lastTime s)
     \<and> (beatEnergyAvgRef s' = beatEnergyAvgRef s
          \<or> beatEnergyAvgRef s' = beatEnergyAvgRef s * 0.9 + frameEnergy f * 0.1)"
proof -
  from draw_total [OF assms] obtain s' f where d: "draw params tk s = Inr (s', f)" by blast
  let ?s1 = "s\<lparr>lastTime := now tk\<rparr>"
  have ok1: "refs_ok ?s1" using assms by (simp add: refs_ok_def)
  from draw_Inr [OF d] obtain s2 where
    ab: "audio_block tk ?s1 = Inr (s2, frameEnergy f, frameBeatBoost f)" and
    s': "s' = s2\<lparr>rotationRef := rotationRef s2
               + (rotationSpeed params + frameBeatBoost f * 0.8) * dt_of (now tk) (lastTime s)\<rparr>"
    by blast
  from audio_block_total [OF ok1, of tk] ab
  have r: "0 \<le> frameEnergy f" "frameEnergy f \<le> 1" "0 \<le> frameBeatBoost f" "refs_ok s2"
    "rotationRef s2 = rotationRef s" "lastTime s2 = now tk" "analyserRef s2 = analyserRef s"
    by auto
  have avg: "beatEnergyAvgRef s2 = beatEnergyAvgRef s
          \<or> beatEnergyAvgRef s2 = beatEnergyAvgRef s * 0.9 + frameEnergy f * 0.1"
    and len: "map_option length (freqDataRef s2) = map_option length (freqDataRef s)"
    using ab by (auto simp: audio_block_def Let_def beat_update_eq split: option.splits)
  from r avg len show ?thesis unfolding d s' by (simp add: refs_ok_def)
qed

lemma frame_wedges:
  assumes "draw params tk s = Inr (s', f)"
  shows "length (wedges f) = nat (segCount_of params)"
    and "w \<in> set (wedges f) \<Longrightarrow> length (wedgeBars w) = bars
      \<and> clipRadius w = min (real (width tk)) (real (height tk)) * 0.48
      \<and> nucleusR w = min (real (width tk)) (real (height tk)) * 0.06
                       * (0.9 + frameEnergy f * 0.6 + frameBeatBoost f * 0.5)"
proof -
  from draw_Inr [OF assms] obtain sc where
    sc: "try_map (draw_wedge params sc (freqDataRef s')) [0..<nat (segCount_of params)]
           = Inr (wedges f)"
      "innerRadius sc = min (real (width tk)) (real (height tk)) * 0.06"
      "maxRadius sc = min (real (width tk)) (real (height tk)) * 0.48"
      "energy sc = frameEnergy f" "beatBoost sc = frameBeatBoost f"
    by blast
  from try_map_length [OF sc(1)] show "length (wedges f) = nat (segCount_of params)" by simp
  assume "w \<in> set (wedges f)"
  from try_map_elem [OF sc(1) this] obtain i where
    i: "draw_wedge params sc (freqDataRef s') i = Inr w" by blast
  from draw_wedge_Inr [OF i] wedge_bars_length [OF i] sc(2-5)
  show "length (wedgeBars w) = bars
      \<and> clipRadius w = min (real (width tk)) (real (height tk)) * 0.48
      \<and> nucleusR w = min (real (width tk)) (real (height tk)) * 0.06
                       * (0.9 + frameEnergy f * 0.6 + frameBeatBoost f * 0.5)"
    by simp
qed

lemma frame_bars:
  assumes "draw params tk s = Inr (s', f)" "w \<in> set (wedges f)" "b \<in> set (wedgeBars w)"
  shows "\<exists>j bin. j < bars \<and> bin_of (freqDataRef s') (bar_t j) = Some bin
     \<and> mag b = bin powr 1.3 * sensitivity params
     \<and> r0 b = min (real (width tk)) (real (height tk)) * 0.06 * (0.8 + frameEnergy f * 0.4)
     \<and> r1 b = r0 b + (min (real (width tk)) (real (height tk)) * 0.48 - r0 b)
                      * min 1 (mag b * (0.9 + frameBeatBoost f))
     \<and> coreEnd b = r1 b * (0.98 + frameEnergy f * 0.02)"
proof -
  from draw_Inr [OF assms(1)] obtain sc where
    sc: "try_map (draw_wedge params sc (freqDataRef s')) [0..<nat (segCount_of params)]
           = Inr (wedges f)"
      "innerRadius sc = min (real (width tk)) (real (height tk)) * 0.06"
      "maxRadius sc = min (real (width tk)) (real (height tk)) * 0.48"
      "energy sc = frameEnergy f" "beatBoost sc = frameBeatBoost f"
    by blast
  from try_map_elem [OF sc(1) assms(2)] obtain i where
    i: "draw_wedge params sc (freqDataRef s') i = Inr w" by blast
  from wedge_bar [OF i assms(3)] obtain j bin where
    j: "j < bars" "bin_of (freqDataRef s') (bar_t j) = Some bin"
      "b = make_bar params sc (bar_t j) bin"
    by blast
  from j(1,2) sc(2-5) show ?thesis
    unfolding j(3) by (intro exI [of _ j] exI [of _ bin]) (simp add: make_bar_fields)
qed

lemma zero_spectrum_frame:
  assumes "refs_ok s"
    and "\<forall>buf. freqDataRef s = Some buf \<longrightarrow>
           (\<forall>b \<in> set (getByteFrequencyData (spectrum tk) buf). b = 0)"
  shows "\<exists>s' f. draw params tk s = Inr (s', f) \<and> frameEnergy f = 0
     \<and> (\<forall>w \<in> set (wedges f). \<forall>b \<in> set (wedgeBars w).
           mag b = 0 \<and> r1 b = r0 b
           \<and> r0 b = min (real (width tk)) (real (height tk)) * 0.06 * 0.8)"
proof -
  let ?s1 = "s\<lparr>lastTime := now tk\<rparr>"
  from draw_total [OF assms(1)] obtain s' f where d: "draw params tk s = Inr (s', f)" by blast
  from draw_Inr [OF d] obtain s2 where
    ab: "audio_block tk ?s1 = Inr (s2, frameEnergy f, frameBeatBoost f)"
    and fd: "freqDataRef s' = freqDataRef s2"
    by auto
  have z: "frameEnergy f = 0
     \<and> (freqDataRef s2 = None
         \<or> (\<exists>a. freqDataRef s2 = Some a \<and> a \<noteq> [] \<and> (\<forall>b \<in> set a. b = 0)))"
  proof (cases "analyserRef s = None \<or> freqDataRef s = None")
    case True
    then have "audio_block tk ?s1 = Inr (?s1, 0, 0)"
      by (intro audio_block_unbound) simp
    with ab True assms(1) show ?thesis by (auto simp: refs_ok_def)
  next
    case False
    then obtain an buf where b: "analyserRef ?s1 = Some an" "freqDataRef ?s1 = Some buf" by auto
    let ?filled = "getByteFrequencyData (spectrum tk) buf"
    from b assms(1) have "buf \<noteq> []" by (auto simp: refs_ok_def)
    then have ne: "?filled \<noteq> []" by (metis length_getByteFrequencyData length_0_conv)
    have zero: "\<forall>b \<in> set ?filled. b = 0" using assms(2) b(2) by simp
    from audio_block_bound [OF b energy_of_zero [OF ne zero]] ab ne zero
    show ?thesis by auto
  qed
  have "mag b = 0 \<and> r1 b = r0 b
           \<and> r0 b = min (real (width tk)) (real (height tk)) * 0.06 * 0.8"
    if "w \<in> set (wedges f)" "b \<in> set (wedgeBars w)" for w b
  proof -
    from frame_bars [OF d that] obtain j bin where
      b: "bin_of (freqDataRef s') (bar_t j) = Some bin"
        "mag b = bin powr 1.3 * sensitivity params"
        "r0 b = min (real (width tk)) (real (height tk)) * 0.06 * (0.8 + frameEnergy f * 0.4)"
        "r1 b = r0 b + (min (real (width tk)) (real (height tk)) * 0.48 - r0 b)
                      * min 1 (mag b * (0.9 + frameBeatBoost f))"
      by blast
    from bin_of_zero [OF _ bar_t_nonneg, of "freqDataRef s'" j] z fd b(1)
    have "bin = 0" by auto
    with b(2) have "mag b = 0" by simp
    with b(3,4) z show ?thesis by simp
  qed
  with d z show ?thesis by blast
qed

lemma zero_spectrum_layout:
  assumes "refs_ok s"
    and "\<forall>buf. freqDataRef s = Some buf \<longrightarrow>
           (\<forall>b \<in> set (getByteFrequencyData (spectrum tk) buf). b = 0)"
  shows "\<exists>s' f. draw params tk s = Inr (s', f) \<and> frameEnergy f = 0
     \<and> length (wedges f) = nat (segCount_of params) \<and> 2 \<le> length (wedges f)
     \<and> (\<forall>w \<in> set (wedges f). length (wedgeBars w) = bars
          \<and> (\<forall>b \<in> set (wedgeBars w).
                mag b = 0 \<and> r1 b = r0 b
              \<and> r0 b = min (real (width tk)) (real (height tk)) * 0.06 * 0.8
              \<and> coreEnd b = r0 b * 0.98))"
proof -
  from zero_spectrum_frame [OF assms, of params] obtain s' f where
    d: "draw params tk s = Inr (s', f)" "frameEnergy f = 0"
    and z: "\<forall>w \<in> set (wedges f). \<forall>b \<in> set (wedgeBars w).
           mag b = 0 \<and> r1 b = r0 b
           \<and> r0 b = min (real (width tk)) (real (height tk)) * 0.06 * 0.8"
    by blast
  have n: "length (wedges f) = nat (segCount_of params)" by (rule frame_wedges(1) [OF d(1)])
  have "2 \<le> segCount_of params" by (simp add: segCount_of_def)
  with n have n2: "2 \<le> length (wedges f)" by simp
  have c: "coreEnd b = r0 b * 0.98" if "w \<in> set (wedges f)" "b \<in> set (wedgeBars w)" for w b
  proof -
    from frame_bars [OF d(1) that] have "coreEnd b = r1 b * (0.98 + frameEnergy f * 0.02)"
      by blast
    with z that d(2) show ?thesis by simp
  qed
  from d n n2 z c frame_wedges(2) [OF d(1)] show ?thesis by auto
qed

lemma beatBoost_nonneg:
  assumes "draw params tk s = Inr (s', f)"
  shows "0 \<le> frameBeatBoost f"
proof -
  from draw_Inr [OF assms] obtain s2 where
    "audio_block tk (s\<lparr>lastTime := now tk\<rparr>) = Inr (s2, frameEnergy f, frameBeatBoost f)"
    by blast
  then show ?thesis
    by (auto simp: audio_block_def Let_def split_beta split: option.splits)
      (metis beat_update_nonneg)
qed

subsection \<open>The state invariant\<close>

text \<open>
  \<open>refs_ok\<close> holds of the initial refs and is kept by every assignment to the two
  buffer refs and by \<^verbatim>\<open>draw\<close>.
\<close>

lemma refs_ok_initial: "refs_ok (initial_refs t0)"
  by (simp add: refs_ok_def initial_refs_def)

lemma valid_fftSize_pos: "valid_fftSize n \<Longrightarrow> 0 < n div 2"
  by (auto simp: valid_fftSize_def upt_rec)

lemma refs_ok_connectAnalyser:
  assumes "connectAnalyser params s = Inr s'"
  shows "refs_ok s'"
  using assms valid_fftSize_pos [of "fftSize params"]
  by (auto simp: connectAnalyser_def refs_ok_def split: if_splits)

lemma refs_ok_analyser_effect:
  assumes "refs_ok s" "analyser_effect params s = Inr s'"
  shows "refs_ok s'"
  using assms valid_fftSize_pos [of "fftSize params"]
  by (auto simp: analyser_effect_def refs_ok_def Let_def split: if_splits option.splits)

lemma refs_ok_draw:
  assumes "refs_ok s" "draw params tk s = Inr (s', f)"
  shows "refs_ok s'"
  using draw_step [OF assms(1), of params tk] assms(2) by auto

subsection \<open>Sequences of frames\<close>

lemma run_append:
  "run params s (xs @ ys) =
     (case run params s xs of
        Inl e \<Rightarrow> Inl e
      | Inr (s1, fs) \<Rightarrow>
          (case run params s1 ys of Inl e \<Rightarrow> Inl e | Inr (s2, gs) \<Rightarrow> Inr (s2, fs @ gs)))"
  by (induction xs arbitrary: s) (auto split: sum.splits)

lemma run_total:
  assumes "refs_ok s" "0 \<le> beatEnergyAvgRef s" "beatEnergyAvgRef s \<le> 1"
  shows "\<exists>s' fs. run params s tks = Inr (s', fs) \<and> refs_ok s' \<and> length fs = length tks
     \<and> analyserRef s' = analyserRef s
     \<and> map_option length (freqDataRef s') = map_option length (freqDataRef s)
     \<and> 0 \<le> beatEnergyAvgRef s' \<and> beatEnergyAvgRef s' \<le> 1
     \<and> (\<forall>f \<in> set fs. 0 \<le> frameEnergy f \<and> frameEnergy f \<le> 1 \<and> 0 \<le> frameBeatBoost f)"
  using assms
proof (induction tks arbitrary: s)
  case Nil
  then show ?case by simp
next
  case (Cons tk tks)
  from draw_step [OF Cons.prems(1), of params tk] obtain s1 f where
    d: "draw params tk s = Inr (s1, f)" "refs_ok s1" "analyserRef s1 = analyserRef s"
      "map_option length (freqDataRef s1) = map_option length (freqDataRef s)"
      "0 \<le> frameEnergy f" "frameEnergy f \<le> 1" "0 \<le> frameBeatBoost f"
      "beatEnergyAvgRef s1 = beatEnergyAvgRef s
          \<or> beatEnergyAvgRef s1 = beatEnergyAvgRef s * 0.9 + frameEnergy f * 0.1"
    by blast
  have a1: "0 \<le> beatEnergyAvgRef s1" "beatEnergyAvgRef s1 \<le> 1"
    using d(5,6,8) Cons.prems(2,3) by auto
  from Cons.IH [OF d(2) a1] obtain s' fs where
    r: "run params s1 tks = Inr (s', fs)" "refs_ok s'" "length fs = length tks"
      "analyserRef s' = analyserRef s1"
      "map_option length (freqDataRef s') = map_option length (freqDataRef s1)"
      "0 \<le> beatEnergyAvgRef s'" "beatEnergyAvgRef s' \<le> 1"
      "\<forall>f \<in> set fs. 0 \<le> frameEnergy f \<and> frameEnergy f \<le> 1 \<and> 0 \<le> frameBeatBoost f"
    by blast
  from d r show ?case by simp
qed

lemma run_constant:
  assumes "analyserRef s = Some an" "freqDataRef s = Some buf"
    "\<forall>tk \<in> set tks. length (spectrum tk) = length buf \<and> energy_of (spectrum tk) = Some c"
  shows "\<exists>s' fs. run params s tks = Inr (s', fs)
     \<and> beatEnergyAvgRef s' - c = 0.9 ^ length tks * (beatEnergyAvgRef s - c)
     \<and> length fs = length tks
     \<and> (\<forall>f \<in> set fs. frameEnergy f = c)
     \<and> (tks \<noteq> [] \<longrightarrow> frameBeatBoost (last fs) = max 0 (c - beatEnergyAvgRef s') * 2.2)"
  using assms
proof (induction tks arbitrary: s buf)
  case Nil
  then show ?case by simp
next
  case (Cons tk tks)
  have tk: "length (spectrum tk) = length buf" "energy_of (spectrum tk) = Some c"
    using Cons.prems(3) by auto
  from draw_bound [OF Cons.prems(1,2) tk, of params] obtain f where
    f: "draw params tk s =
      Inr (s\<lparr>lastTime := now tk, freqDataRef := Some (spectrum tk),
             beatEnergyAvgRef := beatEnergyAvgRef s * 0.9 + c * 0.1,
             rotationRef := rotationRef s
                + (rotationSpeed params + frameBeatBoost f * 0.8) * dt_of (now tk) (lastTime s)\<rparr>, f)"
      "frameEnergy f = c"
      "frameBeatBoost f = max 0 (c - (beatEnergyAvgRef s * 0.9 + c * 0.1)) * 2.2"
    by blast
  define s1 where "s1 = s\<lparr>lastTime := now tk, freqDataRef := Some (spectrum tk),
             beatEnergyAvgRef := beatEnergyAvgRef s * 0.9 + c * 0.1,
             rotationRef := rotationRef s
                + (rotationSpeed params + frameBeatBoost f * 0.8) * dt_of (now tk) (lastTime s)\<rparr>"
  have d: "draw params tk s = Inr (s1, f)" "analyserRef s1 = Some an"
      "freqDataRef s1 = Some (spectrum tk)"
      "beatEnergyAvgRef s1 = beatEnergyAvgRef s * 0.9 + c * 0.1"
      "frameEnergy f = c"
      "frameBeatBoost f = max 0 (c - (beatEnergyAvgRef s * 0.9 + c * 0.1)) * 2.2"
    using f Cons.prems(1) by (simp_all add: s1_def)
  have "\<forall>tk' \<in> set tks. length (spectrum tk') = length (spectrum tk)
          \<and> energy_of (spectrum tk') = Some c"
    using Cons.prems(3) tk(1) by simp
  from Cons.IH [OF d(2,3) this] obtain s' fs where
    r: "run params s1 tks = Inr (s', fs)"
      "beatEnergyAvgRef s' - c = 0.9 ^ length tks * (beatEnergyAvgRef s1 - c)"
      "length fs = length tks" "\<forall>f \<in> set fs. frameEnergy f = c"
      "tks \<noteq> [] \<longrightarrow> frameBeatBoost (last fs) = max 0 (c - beatEnergyAvgRef s') * 2.2"
    by blast
  have e: "beatEnergyAvgRef s' - c = 0.9 ^ length (tk # tks) * (beatEnergyAvgRef s - c)"
    using r(2) d(4) by (simp add: algebra_simps)
  have l: "frameBeatBoost (last (f # fs)) = max 0 (c - beatEnergyAvgRef s') * 2.2"
  proof (cases "tks = []")
    case True
    with r(1,3) d(4,6) show ?thesis by simp
  next
    case False
    with r(3,5) show ?thesis by auto
  qed
  from d(1,5) r(1,3,4) e l show ?case by simp
qed

lemma dt_of_nonneg: "lastTime' \<le> now' \<Longrightarrow> 0 \<le> dt_of now' lastTime'"
  by (simp add: dt_of_def)

subsection \<open>Frames, parameter changes and bindings\<close>

lemma analyser_effect_keeps:
  assumes "analyser_effect params s = Inr s'"
  shows "rotationRef s' = rotationRef s \<and> lastTime s' = lastTime s"
  using assms
  by (auto simp: analyser_effect_def Let_def split: option.splits if_splits)

lemma connectAnalyser_keeps:
  assumes "connectAnalyser params s = Inr s'"
  shows "rotationRef s' = rotationRef s \<and> lastTime s' = lastTime s"
  using assms by (auto simp: connectAnalyser_def split: if_splits)

lemma analyser_effect_total:
  assumes "0 \<le> smoothing params" "smoothing params \<le> 1"
  shows "\<exists>s'. analyser_effect params s = Inr s'"
  using assms by (auto simp: analyser_effect_def Let_def split: option.splits)

lemma set_params_Inr:
  assumes "set_params params' t (params, s) = Inr (p1, s1)" "refs_ok s"
  shows "p1 = params' \<and> refs_ok s1 \<and> rotationRef s1 = rotationRef s \<and> lastTime s1 = t"
proof (cases "smoothing params' \<noteq> smoothing params \<or> fftSize params' \<noteq> fftSize params")
  case True
  with assms(1) obtain s2 where
    s2: "analyser_effect params' s = Inr s2" "p1 = params'" "s1 = s2\<lparr>lastTime := t\<rparr>"
    by (auto simp: set_params_def split: sum.splits)
  from refs_ok_analyser_effect [OF assms(2) s2(1)] analyser_effect_keeps [OF s2(1)] s2(2,3)
  show ?thesis by (simp add: refs_ok_def)
next
  case False
  with assms show ?thesis by (auto simp: set_params_def refs_ok_def)
qed

lemma set_params_total:
  assumes "0 \<le> smoothing params'" "smoothing params' \<le> 1"
  shows "\<exists>st'. set_params params' t (params, s) = Inr st'"
  using analyser_effect_total [OF assms, of s] by (auto simp: set_params_def)

lemma draw_step_up:
  assumes "refs_ok s" "0 \<le> rotationSpeed params" "lastTime s \<le> now tk"
  shows "\<exists>s' f. draw params tk s = Inr (s', f) \<and> refs_ok s' \<and> lastTime s' = now tk
     \<and> rotationRef s \<le> rotationRef s'"
proof -
  from draw_step [OF assms(1), of params tk] obtain s' f where
    d: "draw params tk s = Inr (s', f)" "refs_ok s'" "lastTime s' = now tk"
      "0 \<le> frameBeatBoost f"
      "rotationRef s' = rotationRef s
          + (rotationSpeed params + frameBeatBoost f * 0.8) * dt_of (now tk) (lastTime s)"
    by blast
  have "0 \<le> dt_of (now tk) (lastTime s)" using assms(3) by (rule dt_of_nonneg)
  moreover have "0 \<le> rotationSpeed params + frameBeatBoost f * 0.8"
    using assms(2) d(4) by simp
  ultimately have "0 \<le> (rotationSpeed params + frameBeatBoost f * 0.8) * dt_of (now tk) (lastTime s)"
    by (rule mult_nonneg_nonneg [rotated])
  with d show ?thesis by auto
qed

lemma session_append:
  "session st (xs @ ys) =
     (case session st xs of Inl e \<Rightarrow> Inl e | Inr st' \<Rightarrow> session st' ys)"
proof (induction st xs rule: session.induct)
  case (1 st)
  show ?case by simp
next
  case (2 st tk es)
  then show ?case by (auto split: sum.splits)
next
  case (3 st params' t es)
  then show ?case by (auto split: sum.splits)
next
  case (4 st es)
  then show ?case by (auto split: sum.splits)
qed

lemma session_rotation_mono:
  assumes "refs_ok s" "0 \<le> rotationSpeed params"
    "\<forall>p t. SetParams p t \<in> set es \<longrightarrow> 0 \<le> rotationSpeed p"
    "timely (lastTime s) es"
    "session (params, s) es = Inr (params', s')"
  shows "rotationRef s \<le> rotationRef s'"
  using assms
proof (induction es arbitrary: params s)
  case Nil
  then show ?case by simp
next
  case (Cons e es)
  have rest: "\<forall>p t. SetParams p t \<in> set es \<longrightarrow> 0 \<le> rotationSpeed p"
    using Cons.prems(3) by simp
  show ?case
  proof (cases e)
    case (Frame tk)
    with Cons.prems(4) have t: "lastTime s \<le> now tk" "timely (now tk) es" by simp_all
    from draw_step_up [OF Cons.prems(1,2) t(1)] obtain s1 f where
      d: "draw params tk s = Inr (s1, f)" "refs_ok s1" "lastTime s1 = now tk"
        "rotationRef s \<le> rotationRef s1"
      by blast
    from Cons.prems(5) Frame d(1) have "session (params, s1) es = Inr (params', s')" by simp
    from Cons.IH [OF d(2) Cons.prems(2) rest _ this] t(2) d(3,4) show ?thesis by simp
  next
    case (SetParams p1 t)
    with Cons.prems(5) obtain st1 where
      st1: "set_params p1 t (params, s) = Inr st1" "session st1 es = Inr (params', s')"
      by (auto split: sum.splits)
    obtain q s1 where q: "st1 = (q, s1)" by (cases st1)
    from set_params_Inr [OF st1(1) [unfolded q] Cons.prems(1)]
    have k: "q = p1" "refs_ok s1" "rotationRef s1 = rotationRef s" "lastTime s1 = t" by simp_all
    have sp: "0 \<le> rotationSpeed p1" using Cons.prems(3) SetParams by simp
    have tm: "timely (lastTime s1) es" using Cons.prems(4) SetParams k(4) by simp
    from Cons.IH [OF k(2) sp rest tm] st1(2) q k(1,3) show ?thesis by simp
  next
    case Connect
    show ?thesis
    proof (cases "connectAnalyser params s")
      case (Inl err)
      with Cons.prems(5) Connect have "session (params, s) es = Inr (params', s')" by simp
      from Cons.IH [OF Cons.prems(1,2) rest _ this] Cons.prems(4) Connect show ?thesis by simp
    next
      case (Inr s1)
      with Cons.prems(5) Connect have r: "session (params, s1) es = Inr (params', s')" by simp
      from connectAnalyser_keeps [OF Inr] have k: "rotationRef s1 = rotationRef s"
        "lastTime s1 = lastTime s" by simp_all
      have tm: "timely (lastTime s1) es" using Cons.prems(4) Connect k(2) by simp
      from Cons.IH [OF refs_ok_connectAnalyser [OF Inr] Cons.prems(2) rest tm r] k(1)
      show ?thesis by simp
    qed
  qed
qed

lemma session_prefix_mono:
  assumes "refs_ok s" "0 \<le> rotationSpeed params"
    "\<forall>p t. SetParams p t \<in> set (xs @ ys) \<longrightarrow> 0 \<le> rotationSpeed p"
    "timely (lastTime s) (xs @ ys)"
    "session (params, s) (xs @ ys) = Inr (pj, sj)"
  shows "\<exists>pi si. session (params, s) xs = Inr (pi, si) \<and> rotationRef si \<le> rotationRef sj"
  using assms
proof (induction xs arbitrary: params s)
  case Nil
  from session_rotation_mono [of s params ys pj sj] Nil show ?case by simp
next
  case (Cons e xs)
  have rest: "\<forall>p t. SetParams p t \<in> set (xs @ ys) \<longrightarrow> 0 \<le> rotationSpeed p"
    using Cons.prems(3) by simp
  show ?case
  proof (cases e)
    case (Frame tk)
    with Cons.prems(4) have t: "lastTime s \<le> now tk" "timely (now tk) (xs @ ys)" by simp_all
    from draw_step_up [OF Cons.prems(1,2) t(1)] obtain s1 f where
      d: "draw params tk s = Inr (s1, f)" "refs_ok s1" "lastTime s1 = now tk"
      by blast
    from Cons.prems(5) Frame d(1) have "session (params, s1) (xs @ ys) = Inr (pj, sj)" by simp
    from Cons.IH [OF d(2) Cons.prems(2) rest _ this] t(2) d(3) Frame d(1) show ?thesis by simp
  next
    case (SetParams p1 t)
    with Cons.prems(5) obtain st1 where
      st1: "set_params p1 t (params, s) = Inr st1" "session st1 (xs @ ys) = Inr (pj, sj)"
      by (auto split: sum.splits)
    obtain q s1 where q: "st1 = (q, s1)" by (cases st1)
    from set_params_Inr [OF st1(1) [unfolded q] Cons.prems(1)]
    have k: "q = p1" "refs_ok s1" "lastTime s1 = t" by simp_all
    have sp: "0 \<le> rotationSpeed p1" using Cons.prems(3) SetParams by simp
    have tm: "timely (lastTime s1) (xs @ ys)" using Cons.prems(4) SetParams k(3) by simp
    from Cons.IH [OF k(2) sp rest tm] st1 q k(1) SetParams show ?thesis by simp
  next
    case Connect
    show ?thesis
    proof (cases "connectAnalyser params s")
      case (Inl err)
      with Cons.prems(5) Connect have "session (params, s) (xs @ ys) = Inr (pj, sj)" by simp
      from Cons.IH [OF Cons.prems(1,2) rest _ this] Cons.prems(4) Connect Inl
      show ?thesis by simp
    next
      case (Inr s1)
      with Cons.prems(5) Connect have r: "session (params, s1) (xs @ ys) = Inr (pj, sj)" by simp
      from connectAnalyser_keeps [OF Inr] have k: "lastTime s1 = lastTime s" by simp
      have tm: "timely (lastTime s1) (xs @ ys)" using Cons.prems(4) Connect k by simp
      from Cons.IH [OF refs_ok_connectAnalyser [OF Inr] Cons.prems(2) rest tm r] Connect Inr
      show ?thesis by simp
    qed
  qed
qed

lemma session_total:
  assumes "refs_ok s"
    "\<forall>p t. SetParams p t \<in> set es \<longrightarrow> 0 \<le> smoothing p \<and> smoothing p \<le> 1"
  shows "\<exists>st'. session (params, s) es = Inr st'"
  using assms
proof (induction es arbitrary: params s)
  case Nil
  show ?case by simp
next
  case (Cons e es)
  have rest: "\<forall>p t. SetParams p t \<in> set es \<longrightarrow> 0 \<le> smoothing p \<and> smoothing p \<le> 1"
    using Cons.prems(2) by simp
  show ?case
  proof (cases e)
    case (Frame tk)
    from draw_step [OF Cons.prems(1), of params tk] obtain s1 f where
      d: "draw params tk s = Inr (s1, f)" "refs_ok s1" by blast
    from Cons.IH [OF d(2) rest, of params] d(1) Frame show ?thesis by simp
  next
    case (SetParams p1 t)
    then have "0 \<le> smoothing p1" "smoothing p1 \<le> 1" using Cons.prems(2) by simp_all
    from set_params_total [OF this, of t params s] obtain st1 where
      st1: "set_params p1 t (params, s) = Inr st1" by blast
    obtain q s1 where q: "st1 = (q, s1)" by (cases st1)
    from set_params_Inr [OF st1 [unfolded q] Cons.prems(1)] have "refs_ok s1" by simp
    from Cons.IH [OF this rest, of q] st1 q SetParams show ?thesis by simp
  next
    case Connect
    show ?thesis
    proof (cases "connectAnalyser params s")
      case (Inl err)
      with Cons.IH [OF Cons.prems(1) rest, of params] Connect show ?thesis by simp
    next
      case (Inr s1)
      with Cons.IH [OF refs_ok_connectAnalyser [OF Inr] rest, of params] Connect
      show ?thesis by simp
    qed
  qed
qed

section \<open>Properties\<close>

subsection \<open>Beat estimation\<close>

text \<open>
  Claim C1. Let the analyser be bound and let every frame of an endless sequence have
  energy \<open>c\<close>, with \<open>0 \<le> c \<le> 1\<close>. Then every call of \<^verbatim>\<open>draw\<close> succeeds; the distance
  of the rolling average from \<open>c\<close> after \<open>n + 1\<close> frames is \<open>0.9 ^ (n + 1)\<close> times the
  initial distance; the rolling average \<open>A\<close> converges to \<open>c\<close> and the beat boost \<open>P\<close> of
  the frames converges to 0.
\<close>

theorem beat_constant_energy_converges:
  fixes T :: "nat \<Rightarrow> tick"
  assumes "0 \<le> c" "c \<le> 1"
    and "analyserRef s = Some an" "freqDataRef s = Some buf"
    and "\<forall>n. length (spectrum (T n)) = length buf \<and> energy_of (spectrum (T n)) = Some c"
  shows "\<exists>A P.
     (\<forall>n. \<exists>s' fs. run params s (map T [0..<Suc n]) = Inr (s', fs)
              \<and> frameEnergy (last fs) = c
              \<and> beatEnergyAvgRef s' = A n \<and> frameBeatBoost (last fs) = P n)
     \<and> (\<forall>n. A n - c = 0.9 ^ Suc n * (beatEnergyAvgRef s - c))
     \<and> A \<longlonglongrightarrow> c \<and> P \<longlonglongrightarrow> 0"
proof -
  define A where "A n = c + 0.9 ^ Suc n * (beatEnergyAvgRef s - c)" for n
  define P where "P n = max 0 (c - A n) * 2.2" for n
  have step: "\<exists>s' fs. run params s (map T [0..<Suc n]) = Inr (s', fs)
              \<and> frameEnergy (last fs) = c
              \<and> beatEnergyAvgRef s' = A n \<and> frameBeatBoost (last fs) = P n" for n
  proof -
    have "\<forall>tk \<in> set (map T [0..<Suc n]).
            length (spectrum tk) = length buf \<and> energy_of (spectrum tk) = Some c"
      using assms(5) by auto
    from run_constant [OF assms(3,4) this, of params] obtain s' fs where
      r: "run params s (map T [0..<Suc n]) = Inr (s', fs)"
        "beatEnergyAvgRef s' - c = 0.9 ^ Suc n * (beatEnergyAvgRef s - c)"
        "length fs = Suc n" "\<forall>f \<in> set fs. frameEnergy f = c"
        "frameBeatBoost (last fs) = max 0 (c - beatEnergyAvgRef s') * 2.2"
      by auto
    from r(3) have "fs \<noteq> []" by auto
    then have "last fs \<in> set fs" by simp
    with r(4) have "frameEnergy (last fs) = c" by blast
    moreover have "beatEnergyAvgRef s' = A n" using r(2) by (simp add: A_def)
    ultimately show ?thesis using r(1,5) by (simp add: P_def)
  qed
  have pw: "(\<lambda>n. (0.9::real) ^ Suc n) \<longlonglongrightarrow> 0"
    by (rule LIMSEQ_Suc [OF LIMSEQ_realpow_zero]) simp_all
  have "(\<lambda>n. c + 0.9 ^ Suc n * (beatEnergyAvgRef s - c)) \<longlonglongrightarrow> c + 0 * (beatEnergyAvgRef s - c)"
    by (intro tendsto_add tendsto_mult tendsto_const pw)
  then have limA: "A \<longlonglongrightarrow> c" by (simp add: A_def [abs_def])
  have "(\<lambda>n. max 0 (c - A n) * 2.2) \<longlonglongrightarrow> max 0 (c - c) * 2.2"
    by (intro tendsto_mult tendsto_max tendsto_diff tendsto_const limA)
  then have limP: "P \<longlonglongrightarrow> 0" by (simp add: P_def [abs_def])
  have "\<forall>n. A n - c = 0.9 ^ Suc n * (beatEnergyAvgRef s - c)" by (simp add: A_def)
  with step limA limP show ?thesis by blast
qed

text \<open>
  Claim C1, witness: frames of the two bytes 51, 51, whose energy is \<open>1/5\<close>, from the
  initial average 0.
\<close>

theorem beat_constant_energy_converges_witness:
  "(0::real) \<le> 1/5 \<and> (1/5::real) \<le> 1 \<and> energy_of [51, 51] = Some (1/5) \<and>
   (\<exists>A P.
     (\<forall>n. \<exists>s' fs.
         run DEFAULT_PARAMS
           ((initial_refs 0)\<lparr>analyserRef := Some \<lparr>smoothingTimeConstant = 0.85, nodeFftSize = 4\<rparr>,
                             freqDataRef := Some [0, 0]\<rparr>)
           (map (\<lambda>n. \<lparr>now = 16 * real n, spectrum = [51, 51], width = 300, height = 150\<rparr>) [0..<Suc n])
           = Inr (s', fs)
         \<and> frameEnergy (last fs) = 1/5
         \<and> beatEnergyAvgRef s' = A n \<and> frameBeatBoost (last fs) = P n)
     \<and> (\<forall>n. A n - 1/5 = 0.9 ^ Suc n * (0 - 1/5))
     \<and> A \<longlonglongrightarrow> 1/5 \<and> P \<longlonglongrightarrow> 0)"
  using beat_constant_energy_converges [of "1/5"
      "(initial_refs 0)\<lparr>analyserRef := Some \<lparr>smoothingTimeConstant = 0.85, nodeFftSize = 4\<rparr>,
                             freqDataRef := Some [0, 0]\<rparr>"
      "\<lparr>smoothingTimeConstant = 0.85, nodeFftSize = 4\<rparr>" "[0, 0]"
      "\<lambda>n. \<lparr>now = 16 * real n, spectrum = [51, 51], width = 300, height = 150\<rparr>" DEFAULT_PARAMS]
  by (simp add: energy_of_def initial_refs_def)

text \<open>
  Claim C5. After any history of frames, a frame of energy 0 followed by a frame of
  energy 1 gives a strictly positive beat boost on the second of the two. The rolling
  average before the history lies between 0 and 1, as it does in every state reached from
  the initial one.
\<close>

theorem jump_gives_positive_peak:
  assumes "analyserRef s = Some an" "freqDataRef s = Some buf" "buf \<noteq> []"
    and "0 \<le> beatEnergyAvgRef s" "beatEnergyAvgRef s \<le> 1"
    and "length (spectrum t0) = length buf" "energy_of (spectrum t0) = Some 0"
    and "length (spectrum t1) = length buf" "energy_of (spectrum t1) = Some 1"
  shows "\<exists>s' fs. run params s (hist @ [t0, t1]) = Inr (s', fs)
     \<and> length fs = length hist + 2
     \<and> frameEnergy (last (butlast fs)) = 0 \<and> frameEnergy (last fs) = 1
     \<and> 0 < frameBeatBoost (last fs)"
proof -
  have ok: "refs_ok s" by (rule refs_okI_bound [OF assms(2,3,1)])
  from run_total [OF ok assms(4,5), of params hist] obtain sh fh where
    h: "run params s hist = Inr (sh, fh)" "length fh = length hist"
      "analyserRef sh = analyserRef s"
      "map_option length (freqDataRef sh) = map_option length (freqDataRef s)"
      "0 \<le> beatEnergyAvgRef sh" "beatEnergyAvgRef sh \<le> 1"
    by blast
  from h(4) assms(2) obtain bufh where
    bh: "freqDataRef sh = Some bufh" "length bufh = length buf" by auto
  have ah: "analyserRef sh = Some an" using h(3) assms(1) by simp
  from draw_bound [OF ah bh(1) _ assms(7), of params] assms(6) bh(2) obtain f0 where
    f0: "draw params t0 sh =
      Inr (sh\<lparr>lastTime := now t0, freqDataRef := Some (spectrum t0),
             beatEnergyAvgRef := beatEnergyAvgRef sh * 0.9 + 0 * 0.1,
             rotationRef := rotationRef sh
                + (rotationSpeed params + frameBeatBoost f0 * 0.8) * dt_of (now t0) (lastTime sh)\<rparr>, f0)"
      "frameEnergy f0 = 0"
    by auto
  define s0 where "s0 = sh\<lparr>lastTime := now t0, freqDataRef := Some (spectrum t0),
             beatEnergyAvgRef := beatEnergyAvgRef sh * 0.9 + 0 * 0.1,
             rotationRef := rotationRef sh
                + (rotationSpeed params + frameBeatBoost f0 * 0.8) * dt_of (now t0) (lastTime sh)\<rparr>"
  have s0: "draw params t0 sh = Inr (s0, f0)" "analyserRef s0 = Some an"
    "freqDataRef s0 = Some (spectrum t0)" "beatEnergyAvgRef s0 = beatEnergyAvgRef sh * 0.9"
    using f0(1) ah by (simp_all add: s0_def)
  from draw_bound [OF s0(2,3) _ assms(9), of params] assms(6,8) obtain f1 s1 where
    f1: "draw params t1 s0 = Inr (s1, f1)" "frameEnergy f1 = 1"
      "frameBeatBoost f1 = max 0 (1 - (beatEnergyAvgRef s0 * 0.9 + 1 * 0.1)) * 2.2"
    by auto
  have "beatEnergyAvgRef s0 * 0.9 + 1 * 0.1 < 1" using s0(4) h(6) by simp
  then have pos: "0 < frameBeatBoost f1" unfolding f1(3) by simp
  have "run params s (hist @ [t0, t1]) = Inr (s1, fh @ [f0, f1])"
    by (simp add: run_append h(1) s0(1) f1(1))
  with h(2) f0(2) f1(2) pos show ?thesis by (simp add: butlast_append)
qed

text \<open>
  Claim C5, witness: one frame of history, then the bytes 0, 0 and the bytes 255, 255.
\<close>

theorem jump_gives_positive_peak_witness:
  "energy_of [0, 0] = Some 0 \<and> energy_of [255, 255] = Some 1
   \<and> (\<exists>s' fs. run DEFAULT_PARAMS
        ((initial_refs 0)\<lparr>analyserRef := Some \<lparr>smoothingTimeConstant = 0.85, nodeFftSize = 4\<rparr>,
                          freqDataRef := Some [0, 0]\<rparr>)
        ([\<lparr>now = 16, spectrum = [200, 100], width = 300, height = 150\<rparr>]
          @ [\<lparr>now = 32, spectrum = [0, 0], width = 300, height = 150\<rparr>,
             \<lparr>now = 48, spectrum = [255, 255], width = 300, height = 150\<rparr>]) = Inr (s', fs)
     \<and> length fs = 3
     \<and> frameEnergy (last (butlast fs)) = 0 \<and> frameEnergy (last fs) = 1
     \<and> 0 < frameBeatBoost (last fs))"
  using jump_gives_positive_peak [of
      "(initial_refs 0)\<lparr>analyserRef := Some \<lparr>smoothingTimeConstant = 0.85, nodeFftSize = 4\<rparr>,
                          freqDataRef := Some [0, 0]\<rparr>"
      "\<lparr>smoothingTimeConstant = 0.85, nodeFftSize = 4\<rparr>" "[0, 0]"
      "\<lparr>now = 32, spectrum = [0, 0], width = 300, height = 150\<rparr>"
      "\<lparr>now = 48, spectrum = [255, 255], width = 300, height = 150\<rparr>"
      DEFAULT_PARAMS
      "[\<lparr>now = 16, spectrum = [200, 100], width = 300, height = 150\<rparr>]"]
  by (simp add: initial_refs_def energy_of_def numeral_3_eq_3)

text \<open>
  Claim C9. The update rule is \<open>avg * 0.9 + energy * 0.1\<close>. Started at 0 and fed
  energies between 0 and 1 it stays between 0 and 1; and along every sequence of calls of
  \<^verbatim>\<open>draw\<close> from a state that satisfies \<open>refs_ok\<close> and whose rolling average is 0, every
  frame's energy and the rolling average after every call lie between 0 and 1.
\<close>

theorem rolling_average_stays_in_unit_interval:
  assumes "beatEnergyAvgRef s = 0" "refs_ok s"
    and "\<forall>e \<in> set es. 0 \<le> e \<and> e \<le> 1"
  shows "(\<forall>a e. fst (beat_update a e) = a * 0.9 + e * 0.1)
     \<and> 0 \<le> foldl (\<lambda>a e. fst (beat_update a e)) 0 es
     \<and> foldl (\<lambda>a e. fst (beat_update a e)) 0 es \<le> 1
     \<and> (\<forall>k. \<exists>s' fs. run params s (take k tks) = Inr (s', fs)
            \<and> (\<forall>f \<in> set fs. 0 \<le> frameEnergy f \<and> frameEnergy f \<le> 1)
            \<and> 0 \<le> beatEnergyAvgRef s' \<and> beatEnergyAvgRef s' \<le> 1)"
proof -
  have "\<exists>s' fs. run params s (take k tks) = Inr (s', fs)
            \<and> (\<forall>f \<in> set fs. 0 \<le> frameEnergy f \<and> frameEnergy f \<le> 1)
            \<and> 0 \<le> beatEnergyAvgRef s' \<and> beatEnergyAvgRef s' \<le> 1" for k
    using run_total [OF assms(2), of params "take k tks"] assms(1) by auto
  moreover have "0 \<le> foldl (\<lambda>a e. fst (beat_update a e)) 0 es
       \<and> foldl (\<lambda>a e. fst (beat_update a e)) 0 es \<le> 1"
    using foldl_avg_range [of 0 es] assms(3) by simp
  ultimately show ?thesis by (simp add: beat_update_eq)
qed

text \<open>
  Claim C9, witness: the energies 1, 0, 1/2 lead to the average 0.131; one frame from the
  initial refs.
\<close>

theorem rolling_average_stays_in_unit_interval_witness:
  "beatEnergyAvgRef (initial_refs 0) = 0 \<and> refs_ok (initial_refs 0)
   \<and> list_all (\<lambda>e. 0 \<le> e \<and> e \<le> 1) [1, 0, 1/2 :: real]
   \<and> foldl (\<lambda>a e. fst (beat_update a e)) 0 [1, 0, 1/2] = 0.131
   \<and> 0 \<le> foldl (\<lambda>a e. fst (beat_update a e)) 0 [1, 0, 1/2 :: real]
   \<and> foldl (\<lambda>a e. fst (beat_update a e)) 0 [1, 0, 1/2 :: real] \<le> 1
   \<and> (\<forall>k. \<exists>s' fs. run DEFAULT_PARAMS (initial_refs 0)
               (take k [\<lparr>now = 16, spectrum = [], width = 300, height = 150\<rparr>]) = Inr (s', fs)
            \<and> (\<forall>f \<in> set fs. 0 \<le> frameEnergy f \<and> frameEnergy f \<le> 1)
            \<and> 0 \<le> beatEnergyAvgRef s' \<and> beatEnergyAvgRef s' \<le> 1)"
  using rolling_average_stays_in_unit_interval [of "initial_refs 0" "[1, 0, 1/2]" DEFAULT_PARAMS
      "[\<lparr>now = 16, spectrum = [], width = 300, height = 150\<rparr>]"]
  by (simp add: initial_refs_def refs_ok_def beat_update_def)

subsection \<open>Segment count\<close>

text \<open>
  Claim C2. Whatever value the \<open>segments\<close> parameter holds, the segment count the
  renderer uses lies between 2 and 48.
\<close>

theorem segCount_in_range: "2 \<le> segCount_of params \<and> segCount_of params \<le> 48"
  by (simp add: segCount_of_def)

subsection \<open>Sampling the spectrum\<close>

text \<open>
  Claim C3, as stated, fails at the last bar of a wedge: there \<open>t = 1\<close>, the floor of
  \<open>t * 128\<close> is 128, and the index read is 127.
\<close>

theorem bin_index_not_floor_at_last_bar:
  "bar_t 95 = 1 \<and> bin_index 128 (bar_t 95) = 127 \<and> \<lfloor>bar_t 95 * real (128::nat)\<rfloor> = 128"
  by (simp add: bin_index_def bar_t_def bars_def)

text \<open>
  Claim C3, amended. For a fraction \<open>t\<close> from 0 to 1 and a spectrum of positive length,
  the index read is the floor of \<open>t\<close> times the length as long as \<open>t < 1\<close>, and the last
  index at \<open>t = 1\<close>.
\<close>

theorem bin_index_floor_below_one:
  assumes "0 < len" "0 \<le> t" "t \<le> 1"
  shows "bin_index len t = (if t < 1 then \<lfloor>t * real len\<rfloor> else int len - 1)"
proof (cases "t < 1")
  case True
  with assms floor_mult_less [of len t] show ?thesis by (simp add: bin_index_def)
next
  case False
  with assms have "t = 1" by simp
  then show ?thesis by (simp add: bin_index_def)
qed

text \<open>
  Claim C3 amended, witness: a spectrum of 128 bins, at \<open>t = 1/2\<close> and at \<open>t = 1\<close>.
\<close>

theorem bin_index_floor_below_one_witness:
  "(0::nat) < 128 \<and> (0::real) \<le> 1/2 \<and> (1/2::real) \<le> 1
   \<and> bin_index 128 (1/2) = 64 \<and> bin_index 128 1 = 127"
  using bin_index_floor_below_one [of 128 "1/2"] bin_index_floor_below_one [of 128 1] by simp

text \<open>
  Claim C10. For a fraction \<open>t\<close> from 0 to 1 and a non-empty spectrum, the index read
  is the smaller of the last index and the floor of \<open>t\<close> times the length; it lies
  within the array, so the read yields a byte, also at \<open>t = 1\<close>.
\<close>

theorem bin_index_in_bounds:
  assumes "a \<noteq> []" "0 \<le> t" "t \<le> 1"
  shows "bin_index (length a) t = min (int (length a) - 1) \<lfloor>t * real (length a)\<rfloor>
     \<and> 0 \<le> bin_index (length a) t \<and> bin_index (length a) t \<le> int (length a) - 1
     \<and> typed_get a (bin_index (length a) t) = Some (a ! nat (bin_index (length a) t))
     \<and> bin_of (Some a) t = Some (real (unat (a ! nat (bin_index (length a) t))) / 255)"
proof -
  have "0 < length a" using assms(1) by simp
  from bin_index_range [OF this assms(2)] show ?thesis
    by (simp add: bin_of_def typed_get_def) (simp add: bin_index_def)
qed

text \<open>
  Claim C10, witness: two bins, read at \<open>t = 1\<close>.
\<close>

theorem bin_index_in_bounds_witness:
  "[7, 9 :: byte] \<noteq> [] \<and> (0::real) \<le> 1 \<and> (1::real) \<le> 1
   \<and> bin_index (length [7, 9 :: byte]) 1 = 1
   \<and> typed_get [7, 9 :: byte] (bin_index (length [7, 9 :: byte]) 1) = Some 9
   \<and> bin_of (Some [7, 9]) 1 = Some (9 / 255)"
  using bin_index_in_bounds [of "[7, 9 :: byte]" 1]
  by (simp add: bin_index_def typed_get_def bin_of_def)

subsection \<open>Rotation\<close>

text \<open>
  Claim C4, as stated, fails when a timestamp lies before the stored \<^verbatim>\<open>lastTime\<close>:
  \<^verbatim>\<open>dt\<close> is bounded from above only. With the default parameters, \<^verbatim>\<open>lastTime\<close> 1000
  and a callback at 990 the rotation goes from 0 to \<open>-0.0035\<close>.
\<close>

theorem rotation_decreases_when_time_steps_back:
  "0 \<le> rotationSpeed DEFAULT_PARAMS
   \<and> \<not> isl (run DEFAULT_PARAMS (initial_refs 1000)
              [\<lparr>now = 990, spectrum = [], width = 300, height = 150\<rparr>])
   \<and> rotationRef (fst (projr (run DEFAULT_PARAMS (initial_refs 1000)
              [\<lparr>now = 990, spectrum = [], width = 300, height = 150\<rparr>]))) = - 0.0035
   \<and> rotationRef (initial_refs 1000) = 0"
proof -
  have "analyserRef (initial_refs 1000) = None" by (simp add: initial_refs_def)
  from draw_unbound [OF this refs_ok_initial, of DEFAULT_PARAMS
      "\<lparr>now = 990, spectrum = [], width = 300, height = 150\<rparr>"]
  obtain f where "draw DEFAULT_PARAMS \<lparr>now = 990, spectrum = [], width = 300, height = 150\<rparr>
        (initial_refs 1000) =
       Inr ((initial_refs 1000)\<lparr>lastTime := 990,
              rotationRef := rotationRef (initial_refs 1000)
                + rotationSpeed DEFAULT_PARAMS * dt_of 990 (lastTime (initial_refs 1000))\<rparr>, f)"
    by auto
  then show ?thesis
    by (simp add: initial_refs_def DEFAULT_PARAMS_def dt_of_def)
qed

text \<open>
  The same happens around a change of a parameter: the loop restarts with
  \<^verbatim>\<open>lastTime = performance.now()\<close>, here 1020, and a callback stamped 1018 takes the
  rotation from 0.0056 back to 0.0049, although the frames' own timestamps, 1016 and 1018,
  increase.
\<close>

lemma restart_before_frame_lowers_rotation:
  "\<not> isl (session (DEFAULT_PARAMS, initial_refs 1000)
        [Frame \<lparr>now = 1016, spectrum = [], width = 300, height = 150\<rparr>])
   \<and> \<not> isl (session (DEFAULT_PARAMS, initial_refs 1000)
        [Frame \<lparr>now = 1016, spectrum = [], width = 300, height = 150\<rparr>,
         SetParams DEFAULT_PARAMS 1020,
         Frame \<lparr>now = 1018, spectrum = [], width = 300, height = 150\<rparr>])
   \<and> rotationRef (snd (projr (session (DEFAULT_PARAMS, initial_refs 1000)
        [Frame \<lparr>now = 1016, spectrum = [], width = 300, height = 150\<rparr>]))) = 0.0056
   \<and> rotationRef (snd (projr (session (DEFAULT_PARAMS, initial_refs 1000)
        [Frame \<lparr>now = 1016, spectrum = [], width = 300, height = 150\<rparr>,
         SetParams DEFAULT_PARAMS 1020,
         Frame \<lparr>now = 1018, spectrum = [], width = 300, height = 150\<rparr>]))) = 0.0049"
proof -
  let ?t1 = "\<lparr>now = 1016, spectrum = [], width = 300, height = 150\<rparr>"
  let ?t2 = "\<lparr>now = 1018, spectrum = [], width = 300, height = 150\<rparr>"
  have "analyserRef (initial_refs 1000) = None" by (simp add: initial_refs_def)
  from draw_unbound [OF this refs_ok_initial, of DEFAULT_PARAMS ?t1]
  obtain s1 f1 where d1: "draw DEFAULT_PARAMS ?t1 (initial_refs 1000) = Inr (s1, f1)"
    and s1: "rotationRef s1 = 0.0056" "analyserRef s1 = None" "refs_ok s1"
    by (auto simp: initial_refs_def DEFAULT_PARAMS_def dt_of_def refs_ok_def)
  have sp: "set_params DEFAULT_PARAMS 1020 (DEFAULT_PARAMS, s1)
      = Inr (DEFAULT_PARAMS, s1\<lparr>lastTime := 1020\<rparr>)"
    by (simp add: set_params_def)
  have "analyserRef (s1\<lparr>lastTime := 1020\<rparr>) = None" "refs_ok (s1\<lparr>lastTime := 1020\<rparr>)"
    using s1(2,3) by (simp_all add: refs_ok_def)
  from draw_unbound [OF this, of DEFAULT_PARAMS ?t2]
  obtain s2 f2 where d2: "draw DEFAULT_PARAMS ?t2 (s1\<lparr>lastTime := 1020\<rparr>) = Inr (s2, f2)"
    and s2: "rotationRef s2 = rotationRef s1 + rotationSpeed DEFAULT_PARAMS * dt_of 1018 1020"
    by auto
  have "rotationRef s2 = 0.0049"
    unfolding s2 s1(1) by (simp add: DEFAULT_PARAMS_def dt_of_def)
  with s1(1) show ?thesis by (simp add: d1 sp d2)
qed

text \<open>
  Claim C4, amended. Take any sequence of frames, parameter changes and analyser bindings,
  from a state that satisfies \<open>refs_ok\<close>. Let the rotation speed be non-negative at the
  start and after every change, and let no frame's timestamp lie before the \<^verbatim>\<open>lastTime\<close>
  the frame meets: the timestamp of the frame before it, or the \<^verbatim>\<open>performance.now()\<close>
  of a restart of the loop since. Then the rotation after the first \<open>i\<close> events is at most
  the rotation after the first \<open>j\<close> events whenever \<open>i \<le> j\<close>. The sequence runs to its
  end unless an effect throws, which takes a smoothing outside 0 to 1; and the beat boost
  of every frame that \<^verbatim>\<open>draw\<close> paints is non-negative.
\<close>

theorem rotation_monotone_between_timely_frames:
  assumes "refs_ok s" "0 \<le> rotationSpeed params"
    and "\<forall>p t. SetParams p t \<in> set es \<longrightarrow> 0 \<le> rotationSpeed p"
    and "timely (lastTime s) es" "i \<le> j"
  shows "(\<forall>pj sj. session (params, s) (take j es) = Inr (pj, sj) \<longrightarrow>
            (\<exists>pi si. session (params, s) (take i es) = Inr (pi, si)
                \<and> rotationRef si \<le> rotationRef sj))
     \<and> ((\<forall>p t. SetParams p t \<in> set es \<longrightarrow> 0 \<le> smoothing p \<and> smoothing p \<le> 1) \<longrightarrow>
            (\<exists>pj sj. session (params, s) (take j es) = Inr (pj, sj)))
     \<and> (\<forall>p tk s0 s1 f. draw p tk s0 = Inr (s1, f) \<longrightarrow> 0 \<le> frameBeatBoost f)"
proof -
  let ?xs = "take i es" and ?ys = "drop i (take j es)"
  have split: "take j es = ?xs @ ?ys"
    using assms(5) by (metis append_take_drop_id min.absorb1 take_take)
  have sub: "set (take j es) \<subseteq> set es" by (rule set_take_subset)
  have sp: "\<forall>p t. SetParams p t \<in> set (?xs @ ?ys) \<longrightarrow> 0 \<le> rotationSpeed p"
    using assms(3) sub unfolding split [symmetric] by blast
  have tm_take: "timely l (take k xs)" if "timely l xs" for l k and xs :: "event list"
    using that
  proof (induction l xs arbitrary: k rule: timely.induct)
    case (1 l)
    show ?case by simp
  next
    case (2 l tk es)
    then show ?case by (cases k) simp_all
  next
    case (3 l params' t es)
    then show ?case by (cases k) simp_all
  next
    case (4 l es)
    then show ?case by (cases k) simp_all
  qed
  have tm: "timely (lastTime s) (?xs @ ?ys)"
    using tm_take [OF assms(4), of j] unfolding split [symmetric] .
  have a: "\<exists>pi si. session (params, s) (take i es) = Inr (pi, si) \<and> rotationRef si \<le> rotationRef sj"
    if "session (params, s) (take j es) = Inr (pj, sj)" for pj sj
    using session_prefix_mono [OF assms(1,2) sp tm] that unfolding split [symmetric] by blast
  have b: "\<exists>pj sj. session (params, s) (take j es) = Inr (pj, sj)"
    if "\<forall>p t. SetParams p t \<in> set es \<longrightarrow> 0 \<le> smoothing p \<and> smoothing p \<le> 1"
  proof -
    from that sub
    have "\<forall>p t. SetParams p t \<in> set (take j es) \<longrightarrow> 0 \<le> smoothing p \<and> smoothing p \<le> 1"
      by blast
    from session_total [OF assms(1) this, of params] show ?thesis by auto
  qed
  from a b beatBoost_nonneg show ?thesis by blast
qed

text \<open>
  Claim C4 amended, witness: a frame at 1016, a change of the rotation speed at 1020, a
  binding of the analyser and a frame at 1033, after \<^verbatim>\<open>lastTime\<close> 1000.
\<close>

theorem rotation_monotone_between_timely_frames_witness:
  "refs_ok (initial_refs 1000) \<and> 0 \<le> rotationSpeed DEFAULT_PARAMS
   \<and> 0 \<le> rotationSpeed (DEFAULT_PARAMS\<lparr>rotationSpeed := 0.5\<rparr>)
   \<and> timely (lastTime (initial_refs 1000))
        [Frame \<lparr>now = 1016, spectrum = [], width = 300, height = 150\<rparr>,
         SetParams (DEFAULT_PARAMS\<lparr>rotationSpeed := 0.5\<rparr>) 1020,
         Connect,
         Frame \<lparr>now = 1033, spectrum = replicate 512 7, width = 300, height = 150\<rparr>]
   \<and> (1::nat) \<le> 4
   \<and> (\<exists>pi si pj sj.
        session (DEFAULT_PARAMS, initial_refs 1000)
          (take 1 [Frame \<lparr>now = 1016, spectrum = [], width = 300, height = 150\<rparr>,
                   SetParams (DEFAULT_PARAMS\<lparr>rotationSpeed := 0.5\<rparr>) 1020,
                   Connect,
                   Frame \<lparr>now = 1033, spectrum = replicate 512 7, width = 300, height = 150\<rparr>])
          = Inr (pi, si)
      \<and> session (DEFAULT_PARAMS, initial_refs 1000)
          (take 4 [Frame \<lparr>now = 1016, spectrum = [], width = 300, height = 150\<rparr>,
                   SetParams (DEFAULT_PARAMS\<lparr>rotationSpeed := 0.5\<rparr>) 1020,
                   Connect,
                   Frame \<lparr>now = 1033, spectrum = replicate 512 7, width = 300, height = 150\<rparr>])
          = Inr (pj, sj)
      \<and> rotationRef si \<le> rotationRef sj)"
proof -
  let ?es = "[Frame \<lparr>now = 1016, spectrum = [], width = 300, height = 150\<rparr>,
         SetParams (DEFAULT_PARAMS\<lparr>rotationSpeed := 0.5\<rparr>) 1020,
         Connect,
         Frame \<lparr>now = 1033, spectrum = replicate 512 7, width = 300, height = 150\<rparr>]"
  have h: "refs_ok (initial_refs 1000)" "0 \<le> rotationSpeed DEFAULT_PARAMS"
    "\<forall>p t. SetParams p t \<in> set ?es \<longrightarrow> 0 \<le> rotationSpeed p"
    "timely (lastTime (initial_refs 1000)) ?es" "(1::nat) \<le> 4"
    by (simp_all add: initial_refs_def refs_ok_def DEFAULT_PARAMS_def)
  have sm: "\<forall>p t. SetParams p t \<in> set ?es \<longrightarrow> 0 \<le> smoothing p \<and> smoothing p \<le> 1"
    by (simp add: DEFAULT_PARAMS_def)
  have "0 \<le> rotationSpeed (DEFAULT_PARAMS\<lparr>rotationSpeed := 0.5\<rparr>)" by simp
  with h(1,2,4,5) sm rotation_monotone_between_timely_frames [OF h]
  show ?thesis by blast
qed

subsection \<open>Frames without audio, without surface, without signal\<close>

text \<open>
  Claim C6. With no analyser bound (and so, by \<open>refs_ok\<close>, no buffer), a call of
  \<^verbatim>\<open>draw\<close> ends without an error; energy and beat boost are 0, the rolling average is
  unchanged, and the frame still has its wedges (at least two) of 96 bars each, every bar
  with magnitude 0.
\<close>

theorem unbound_analyser_is_silence:
  assumes "analyserRef s = None" "refs_ok s"
  shows "audio_block tk (s\<lparr>lastTime := now tk\<rparr>) = Inr (s\<lparr>lastTime := now tk\<rparr>, 0, 0)
     \<and> (\<exists>s' f. draw params tk s = Inr (s', f)
           \<and> frameEnergy f = 0 \<and> frameBeatBoost f = 0
           \<and> beatEnergyAvgRef s' = beatEnergyAvgRef s
           \<and> length (wedges f) = nat (segCount_of params) \<and> 2 \<le> length (wedges f)
           \<and> (\<forall>w \<in> set (wedges f). length (wedgeBars w) = bars
                 \<and> (\<forall>b \<in> set (wedgeBars w). mag b = 0 \<and> r1 b = r0 b)))"
proof -
  have ab: "audio_block tk (s\<lparr>lastTime := now tk\<rparr>) = Inr (s\<lparr>lastTime := now tk\<rparr>, 0, 0)"
    by (rule audio_block_unbound) (simp add: assms(1))
  from draw_unbound [OF assms, of params tk] obtain s' f where
    d: "draw params tk s = Inr (s', f)" "frameEnergy f = 0" "frameBeatBoost f = 0"
      "beatEnergyAvgRef s' = beatEnergyAvgRef s" "freqDataRef s' = freqDataRef s"
    by auto
  have fd: "freqDataRef s' = None" using d(5) assms by (simp add: refs_ok_def)
  have bars0: "mag b = 0 \<and> r1 b = r0 b" if "w \<in> set (wedges f)" "b \<in> set (wedgeBars w)" for w b
  proof -
    from frame_bars [OF d(1) that] obtain j bin where
      b: "bin_of (freqDataRef s') (bar_t j) = Some bin"
        "mag b = bin powr 1.3 * sensitivity params"
        "r1 b = r0 b + (min (real (width tk)) (real (height tk)) * 0.48 - r0 b)
                      * min 1 (mag b * (0.9 + frameBeatBoost f))"
      by blast
    from b(1) fd have "bin = 0" by (simp add: bin_of_def)
    with b(2) have "mag b = 0" by simp
    with b(3) show ?thesis by simp
  qed
  have n: "length (wedges f) = nat (segCount_of params)" by (rule frame_wedges(1) [OF d(1)])
  have "2 \<le> segCount_of params" by (simp add: segCount_of_def)
  with n have "2 \<le> length (wedges f)" by simp
  with ab d(1-4) n bars0 frame_wedges(2) [OF d(1)] show ?thesis by auto
qed

text \<open>
  Claim C6, witness: the first frame after the component is created.
\<close>

theorem unbound_analyser_is_silence_witness:
  "analyserRef (initial_refs 1000) = None \<and> refs_ok (initial_refs 1000)
   \<and> (\<exists>s' f. draw DEFAULT_PARAMS \<lparr>now = 1016, spectrum = [], width = 300, height = 150\<rparr>
                 (initial_refs 1000) = Inr (s', f)
           \<and> frameEnergy f = 0 \<and> frameBeatBoost f = 0
           \<and> beatEnergyAvgRef s' = 0
           \<and> length (wedges f) = 12
           \<and> (\<forall>w \<in> set (wedges f). length (wedgeBars w) = 96
                 \<and> (\<forall>b \<in> set (wedgeBars w). mag b = 0 \<and> r1 b = r0 b)))"
  using unbound_analyser_is_silence [of "initial_refs 1000"
      "\<lparr>now = 1016, spectrum = [], width = 300, height = 150\<rparr>" DEFAULT_PARAMS]
  by (auto simp: initial_refs_def refs_ok_def segCount_of_def DEFAULT_PARAMS_def bars_def)

text \<open>
  Claim C7, as stated, fails: \<^verbatim>\<open>draw\<close> has no test of the canvas size. On a canvas of
  width 0 the frame of the default parameters still has its 12 wedges.
\<close>

theorem degenerate_surface_not_skipped:
  "\<not> frame_skipped (draw DEFAULT_PARAMS \<lparr>now = 1016, spectrum = [], width = 0, height = 150\<rparr>
        (initial_refs 1000))"
proof -
  from draw_total [OF refs_ok_initial] obtain s' f where
    d: "draw DEFAULT_PARAMS \<lparr>now = 1016, spectrum = [], width = 0, height = 150\<rparr>
        (initial_refs 1000) = Inr (s', f)"
    by blast
  from frame_wedges(1) [OF d] have "length (wedges f) = 12"
    by (simp add: segCount_of_def DEFAULT_PARAMS_def)
  then have "wedges f \<noteq> []" by auto
  with d show ?thesis by (simp add: frame_skipped_def)
qed

text \<open>
  Claim C7, amended. On a canvas of width 0 or height 0 a call of \<^verbatim>\<open>draw\<close>, from a
  state that satisfies \<open>refs_ok\<close>, ends without an error and runs as on any canvas: \<^verbatim>\<open>lastTime\<close> and the rotation advance, all wedges
  and bars are issued. Everything it paints has no extent: the overlay has a zero side,
  and the clip radius, the nucleus radius and both ends of every bar are 0.
\<close>

theorem degenerate_surface_paints_nothing:
  assumes "width tk = 0 \<or> height tk = 0" "refs_ok s"
  shows "\<exists>s' f. draw params tk s = Inr (s', f)
     \<and> (fst (overlay f) = 0 \<or> snd (overlay f) = 0)
     \<and> length (wedges f) = nat (segCount_of params)
     \<and> (\<forall>w \<in> set (wedges f). clipRadius w = 0 \<and> nucleusR w = 0
           \<and> length (wedgeBars w) = bars
           \<and> (\<forall>b \<in> set (wedgeBars w). r0 b = 0 \<and> r1 b = 0 \<and> coreEnd b = 0))
     \<and> lastTime s' = now tk
     \<and> rotationRef s' = rotationRef s
          + (rotationSpeed params + frameBeatBoost f * 0.8) * dt_of (now tk) (lastTime s)"
proof -
  from draw_step [OF assms(2), of params tk] obtain s' f where
    d: "draw params tk s = Inr (s', f)" "lastTime s' = now tk"
      "rotationRef s' = rotationRef s
          + (rotationSpeed params + frameBeatBoost f * 0.8) * dt_of (now tk) (lastTime s)"
    by blast
  have m: "min (real (width tk)) (real (height tk)) = 0" using assms(1) by auto
  from draw_Inr [OF d(1)] assms(1) have ov: "fst (overlay f) = 0 \<or> snd (overlay f) = 0" by auto
  have w0: "clipRadius w = 0 \<and> nucleusR w = 0 \<and> length (wedgeBars w) = bars"
    if "w \<in> set (wedges f)" for w
    using frame_wedges(2) [OF d(1) that] m by simp
  have b0: "r0 b = 0 \<and> r1 b = 0 \<and> coreEnd b = 0"
    if "w \<in> set (wedges f)" "b \<in> set (wedgeBars w)" for w b
    using frame_bars [OF d(1) that] m by auto
  from d ov w0 b0 frame_wedges(1) [OF d(1)] show ?thesis by auto
qed

text \<open>
  Claim C7 amended, witness: a canvas of width 0 and height 150.
\<close>

theorem degenerate_surface_paints_nothing_witness:
  "(width \<lparr>now = 1016, spectrum = [], width = 0, height = 150\<rparr> = 0) \<and> refs_ok (initial_refs 1000)
   \<and> (\<exists>s' f. draw DEFAULT_PARAMS \<lparr>now = 1016, spectrum = [], width = 0, height = 150\<rparr>
                 (initial_refs 1000) = Inr (s', f)
     \<and> length (wedges f) = 12
     \<and> (\<forall>w \<in> set (wedges f). clipRadius w = 0 \<and> nucleusR w = 0
           \<and> length (wedgeBars w) = 96
           \<and> (\<forall>b \<in> set (wedgeBars w). r0 b = 0 \<and> r1 b = 0 \<and> coreEnd b = 0))
     \<and> lastTime s' = 1016
     \<and> rotationRef s' = (0.35 + frameBeatBoost f * 0.8) * 0.016)"
  using degenerate_surface_paints_nothing [of
      "\<lparr>now = 1016, spectrum = [], width = 0, height = 150\<rparr>" "initial_refs 1000" DEFAULT_PARAMS]
  by (auto simp: initial_refs_def refs_ok_def segCount_of_def DEFAULT_PARAMS_def bars_def dt_of_def)

text \<open>
  Claim C8, as stated, fails for the core pass of a bar, which is stroked from \<open>r0\<close> to
  \<open>r1 * (0.98 + energy * 0.02)\<close>: with a bound analyser that reports four zero bins on
  a canvas of 300 by 150, the first bar starts at 7.2 and its core pass ends at 7.056.
\<close>

theorem zero_spectrum_core_pass_has_length:
  "\<not> isl (draw DEFAULT_PARAMS \<lparr>now = 1016, spectrum = [0, 0, 0, 0], width = 300, height = 150\<rparr>
        ((initial_refs 1000)\<lparr>analyserRef := Some \<lparr>smoothingTimeConstant = 0.85, nodeFftSize = 8\<rparr>,
                             freqDataRef := Some [3, 1, 4, 1]\<rparr>))
   \<and> r0 (hd (wedgeBars (hd (wedges (snd (projr
        (draw DEFAULT_PARAMS \<lparr>now = 1016, spectrum = [0, 0, 0, 0], width = 300, height = 150\<rparr>
        ((initial_refs 1000)\<lparr>analyserRef := Some \<lparr>smoothingTimeConstant = 0.85, nodeFftSize = 8\<rparr>,
                             freqDataRef := Some [3, 1, 4, 1]\<rparr>)))))))) = 7.2
   \<and> coreEnd (hd (wedgeBars (hd (wedges (snd (projr
        (draw DEFAULT_PARAMS \<lparr>now = 1016, spectrum = [0, 0, 0, 0], width = 300, height = 150\<rparr>
        ((initial_refs 1000)\<lparr>analyserRef := Some \<lparr>smoothingTimeConstant = 0.85, nodeFftSize = 8\<rparr>,
                             freqDataRef := Some [3, 1, 4, 1]\<rparr>)))))))) = 7.056"
proof -
  let ?tk = "\<lparr>now = 1016, spectrum = [0, 0, 0, 0], width = 300, height = 150\<rparr>"
  let ?s = "(initial_refs 1000)\<lparr>analyserRef := Some \<lparr>smoothingTimeConstant = 0.85, nodeFftSize = 8\<rparr>,
                             freqDataRef := Some [3, 1, 4, 1]\<rparr>"
  have ok: "refs_ok ?s" by (simp add: refs_ok_def)
  have zero: "\<forall>buf. freqDataRef ?s = Some buf \<longrightarrow>
           (\<forall>b \<in> set (getByteFrequencyData (spectrum ?tk) buf). b = 0)"
    by (simp add: getByteFrequencyData_def)
  from zero_spectrum_layout [OF ok zero, of DEFAULT_PARAMS] obtain s' f where
    d: "draw DEFAULT_PARAMS ?tk ?s = Inr (s', f)" "2 \<le> length (wedges f)"
    and w: "\<forall>w \<in> set (wedges f). length (wedgeBars w) = bars
          \<and> (\<forall>b \<in> set (wedgeBars w).
              r0 b = min (real (width ?tk)) (real (height ?tk)) * 0.06 * 0.8
              \<and> coreEnd b = r0 b * 0.98)"
    by blast
  from d(2) have "wedges f \<noteq> []" by auto
  then have hw: "hd (wedges f) \<in> set (wedges f)" by simp
  with w have "length (wedgeBars (hd (wedges f))) = bars" by blast
  then have "wedgeBars (hd (wedges f)) \<noteq> []" by (auto simp: bars_def)
  then have "hd (wedgeBars (hd (wedges f))) \<in> set (wedgeBars (hd (wedges f)))" by simp
  with w hw have
    "r0 (hd (wedgeBars (hd (wedges f)))) = min (real (width ?tk)) (real (height ?tk)) * 0.06 * 0.8"
    "coreEnd (hd (wedgeBars (hd (wedges f)))) = r0 (hd (wedgeBars (hd (wedges f)))) * 0.98"
    by blast+
  then have "r0 (hd (wedgeBars (hd (wedges f)))) = 7.2"
    "coreEnd (hd (wedgeBars (hd (wedges f)))) = 7.056"
    by simp_all
  then show ?thesis unfolding d(1) by simp
qed

text \<open>
  Claim C8, amended. From a state that satisfies \<open>refs_ok\<close>: when the buffer the frame
  reads holds only zeros (or there is no buffer), the energy is 0 and the frame has its
  wedges (at least two) of 96 bars each; every bar has magnitude 0, its glow pass ends where
  it starts, at 0.8 times the inner radius, and its core pass ends at 0.98 times that
  radius. No bar of any frame starts below 0.8 times the inner radius.
\<close>

theorem zero_spectrum_no_spectral_length:
  assumes "refs_ok s"
    and "\<forall>buf. freqDataRef s = Some buf \<longrightarrow>
           (\<forall>b \<in> set (getByteFrequencyData (spectrum tk) buf). b = 0)"
  shows "(\<exists>s' f. draw params tk s = Inr (s', f) \<and> frameEnergy f = 0
     \<and> length (wedges f) = nat (segCount_of params) \<and> 2 \<le> length (wedges f)
     \<and> (\<forall>w \<in> set (wedges f). length (wedgeBars w) = bars
          \<and> (\<forall>b \<in> set (wedgeBars w).
                mag b = 0 \<and> r1 b = r0 b
              \<and> r0 b = min (real (width tk)) (real (height tk)) * 0.06 * 0.8
              \<and> coreEnd b = r0 b * 0.98)))
     \<and> (\<forall>s2 tk2 s2' f2. refs_ok s2 \<and> draw params tk2 s2 = Inr (s2', f2) \<longrightarrow>
           (\<forall>w \<in> set (wedges f2). \<forall>b \<in> set (wedgeBars w).
              min (real (width tk2)) (real (height tk2)) * 0.06 * 0.8 \<le> r0 b))"
proof -
  have "min (real (width tk2)) (real (height tk2)) * 0.06 * 0.8 \<le> r0 b"
    if "refs_ok s2" "draw params tk2 s2 = Inr (s2', f2)"
      "w \<in> set (wedges f2)" "b \<in> set (wedgeBars w)" for s2 tk2 s2' f2 w b
  proof -
    from draw_step [OF that(1), of params tk2] that(2) have e: "0 \<le> frameEnergy f2" by auto
    from frame_bars [OF that(2-4)] have
      r: "r0 b = min (real (width tk2)) (real (height tk2)) * 0.06 * (0.8 + frameEnergy f2 * 0.4)"
      by blast
    have "0 \<le> min (real (width tk2)) (real (height tk2)) * 0.06" by simp
    moreover have "(0.8::real) \<le> 0.8 + frameEnergy f2 * 0.4" using e by simp
    ultimately have "min (real (width tk2)) (real (height tk2)) * 0.06 * 0.8
       \<le> min (real (width tk2)) (real (height tk2)) * 0.06 * (0.8 + frameEnergy f2 * 0.4)"
      by (rule mult_left_mono [rotated])
    with r show ?thesis by simp
  qed
  with zero_spectrum_layout [OF assms, of params] show ?thesis by blast
qed

text \<open>
  Claim C8 amended, witness: a bound analyser reporting four zero bins into a buffer of
  four, on a canvas of 300 by 150.
\<close>

theorem zero_spectrum_no_spectral_length_witness:
  "refs_ok ((initial_refs 1000)\<lparr>analyserRef := Some \<lparr>smoothingTimeConstant = 0.85, nodeFftSize = 8\<rparr>,
                             freqDataRef := Some [3, 1, 4, 1]\<rparr>)
   \<and> getByteFrequencyData [0, 0, 0, 0] [3, 1, 4, 1] = [0, 0, 0, 0]
   \<and> (\<exists>s' f. draw DEFAULT_PARAMS \<lparr>now = 1016, spectrum = [0, 0, 0, 0], width = 300, height = 150\<rparr>
        ((initial_refs 1000)\<lparr>analyserRef := Some \<lparr>smoothingTimeConstant = 0.85, nodeFftSize = 8\<rparr>,
                             freqDataRef := Some [3, 1, 4, 1]\<rparr>) = Inr (s', f)
     \<and> frameEnergy f = 0
     \<and> length (wedges f) = 12
     \<and> (\<forall>w \<in> set (wedges f). length (wedgeBars w) = 96
          \<and> (\<forall>b \<in> set (wedgeBars w).
                mag b = 0 \<and> r1 b = r0 b \<and> r0 b = 7.2 \<and> coreEnd b = 7.056)))"
proof -
  let ?tk = "\<lparr>now = 1016, spectrum = [0, 0, 0, 0], width = 300, height = 150\<rparr>"
  let ?s = "(initial_refs 1000)\<lparr>analyserRef := Some \<lparr>smoothingTimeConstant = 0.85, nodeFftSize = 8\<rparr>,
                             freqDataRef := Some [3, 1, 4, 1]\<rparr>"
  have ok: "refs_ok ?s" by (simp add: refs_ok_def)
  have fill: "getByteFrequencyData [0, 0, 0, 0] [3, 1, 4, 1] = [0, 0, 0, 0]"
    by (simp add: getByteFrequencyData_def)
  have zero: "\<forall>buf. freqDataRef ?s = Some buf \<longrightarrow>
           (\<forall>b \<in> set (getByteFrequencyData (spectrum ?tk) buf). b = 0)"
    by (simp add: fill)
  from zero_spectrum_no_spectral_length [OF ok zero, of DEFAULT_PARAMS] obtain s' f where
    d: "draw DEFAULT_PARAMS ?tk ?s = Inr (s', f)" "frameEnergy f = 0"
      "length (wedges f) = nat (segCount_of DEFAULT_PARAMS)"
    and w: "\<forall>w \<in> set (wedges f). length (wedgeBars w) = bars
          \<and> (\<forall>b \<in> set (wedgeBars w).
                mag b = 0 \<and> r1 b = r0 b
              \<and> r0 b = min (real (width ?tk)) (real (height ?tk)) * 0.06 * 0.8
              \<and> coreEnd b = r0 b * 0.98)"
    by blast
  have n: "length (wedges f) = 12" using d(3) by (simp add: segCount_of_def DEFAULT_PARAMS_def)
  have b: "mag b = 0 \<and> r1 b = r0 b \<and> r0 b = 7.2 \<and> coreEnd b = 7.056"
    if "w \<in> set (wedges f)" "b \<in> set (wedgeBars w)" for w b
  proof -
    from w that have "mag b = 0" "r1 b = r0 b"
      "r0 b = min (real (width ?tk)) (real (height ?tk)) * 0.06 * 0.8"
      "coreEnd b = r0 b * 0.98"
      by blast+
    then show ?thesis by simp
  qed
  have l: "length (wedgeBars w) = 96" if "w \<in> set (wedges f)" for w
    using w that by (simp add: bars_def)
  from ok fill d(1,2) n b l show ?thesis by blast
qed

end
